theory Spec2Isabelle
  imports Complex_Main
begin

section \<open>Numbers, vectors, matrices\<close>

text \<open>
  A \<open>double\<close> is either a finite number or one of the three special values.  Arithmetic on
  finite numbers is idealised as exact (no rounding, no overflow); arithmetic that involves an
  infinity or NaN follows IEEE-754.  Results below that depend on finite arithmetic are only
  evaluated on small integers, where the idealisation is exact.  In particular the difference
  of two finite numbers is finite here, where the source overflows to an infinity for operands
  near the largest double.
\<close>

datatype dbl = Fin real | PInf | MInf | NaN

text \<open>\<open>Function::infinity ()\<close> is the positive infinity.\<close>

definition Function_infinity :: dbl where
  "Function_infinity = PInf"

text \<open>\<open>a != b\<close> on doubles: NaN differs from everything, itself included.\<close>

definition dbl_neq :: "dbl \<Rightarrow> dbl \<Rightarrow> bool" where
  "dbl_neq a b = (a = NaN \<or> b = NaN \<or> a \<noteq> b)"

fun dbl_minus :: "dbl \<Rightarrow> dbl \<Rightarrow> dbl" where
  "dbl_minus NaN b = NaN"
| "dbl_minus (Fin a) (Fin b) = Fin (a - b)"
| "dbl_minus (Fin a) PInf = MInf"
| "dbl_minus (Fin a) MInf = PInf"
| "dbl_minus (Fin a) NaN = NaN"
| "dbl_minus PInf (Fin b) = PInf"
| "dbl_minus PInf PInf = NaN"
| "dbl_minus PInf MInf = PInf"
| "dbl_minus PInf NaN = NaN"
| "dbl_minus MInf (Fin b) = MInf"
| "dbl_minus MInf PInf = MInf"
| "dbl_minus MInf MInf = NaN"
| "dbl_minus MInf NaN = NaN"

fun dbl_plus :: "dbl \<Rightarrow> dbl \<Rightarrow> dbl" where
  "dbl_plus NaN b = NaN"
| "dbl_plus (Fin a) (Fin b) = Fin (a + b)"
| "dbl_plus (Fin a) PInf = PInf"
| "dbl_plus (Fin a) MInf = MInf"
| "dbl_plus (Fin a) NaN = NaN"
| "dbl_plus PInf (Fin b) = PInf"
| "dbl_plus PInf PInf = PInf"
| "dbl_plus PInf MInf = NaN"
| "dbl_plus PInf NaN = NaN"
| "dbl_plus MInf (Fin b) = MInf"
| "dbl_plus MInf PInf = NaN"
| "dbl_plus MInf MInf = MInf"
| "dbl_plus MInf NaN = NaN"

text \<open>\<open>a / 2.\<close>\<close>

fun dbl_half :: "dbl \<Rightarrow> dbl" where
  "dbl_half (Fin a) = Fin (a / 2)"
| "dbl_half PInf = PInf"
| "dbl_half MInf = MInf"
| "dbl_half NaN = NaN"

text \<open>\<open>a * 0.\<close> (the sign of a zero is not tracked).\<close>

fun dbl_times_zero :: "dbl \<Rightarrow> dbl" where
  "dbl_times_zero (Fin a) = Fin 0"
| "dbl_times_zero PInf = NaN"
| "dbl_times_zero MInf = NaN"
| "dbl_times_zero NaN = NaN"

definition is_finite :: "dbl \<Rightarrow> bool" where
  "is_finite a = (case a of Fin r \<Rightarrow> True | _ \<Rightarrow> False)"

type_synonym vector_t = "dbl list"

text \<open>A dense matrix is the list of its rows.\<close>

type_synonym matrix_t = "dbl list list"

type_synonym interval_t = "dbl \<times> dbl"

datatype error = AssertionFailed | EigenAssertion | OutOfRange | BufferOverflow


section \<open>The problem description (roboptim-core, consumed read-only)\<close>

text \<open>
  The classes \<open>Function\<close>, \<open>Problem\<close>, \<open>Result\<close> and the Ipopt enumerations are declared
  outside this repository; they appear here with the members the adapter uses.  The type
  parameter is the Jacobian representation: \<open>matrix_t\<close> for the dense solver, the sparse
  matrix type for the sparse one.  \<open>call\<close> is \<open>operator()\<close>, \<open>jacobian\<close> is \<open>jacobian (x)\<close>
  and \<open>jacobian_fill\<close> is the in-place overload \<open>jacobian (jac, x)\<close>.
\<close>

record 'j function_t =
  inputSize :: nat
  outputSize :: nat
  call :: "vector_t \<Rightarrow> vector_t"
  gradient :: "vector_t \<Rightarrow> nat \<Rightarrow> vector_t"
  jacobian :: "vector_t \<Rightarrow> 'j"
  jacobian_fill :: "'j \<Rightarrow> vector_t \<Rightarrow> 'j"

text \<open>A constraint is a \<open>boost::variant\<close> of a linear and a non-linear function.\<close>

datatype 'j constraint = LinearC "'j function_t" | NonLinearC "'j function_t"

datatype which_t = LINEAR | NON_LINEAR

fun which_c :: "'j constraint \<Rightarrow> which_t" where
  "which_c (LinearC f) = LINEAR"
| "which_c (NonLinearC f) = NON_LINEAR"

text \<open>
  The recurring idiom
  \<open>if (it->which () == LINEAR) g = get<linear> (*it); else g = get<nonlinear> (*it);\<close>
\<close>

fun g_of :: "'j constraint \<Rightarrow> 'j function_t" where
  "g_of (LinearC f) = f"
| "g_of (NonLinearC f) = f"

text \<open>\<open>objective\<close> is \<open>problem ().function ()\<close>.\<close>

record 'j problem_t =
  objective :: "'j function_t"
  constraints :: "'j constraint list"
  argumentBounds :: "interval_t list"
  boundsVector :: "interval_t list list"
  argumentScales :: "dbl list"
  scalesVector :: "dbl list list"
  startingPoint :: "vector_t option"

record result_data =
  res_x :: vector_t
  res_constraints :: vector_t
  res_lambda :: vector_t
  res_value :: vector_t

text \<open>\<open>solver_t::result_t\<close>, a variant; \<open>which ()\<close> is the index of the alternative.\<close>

datatype result_t =
  NoSolution
| Result result_data
| ResultWithWarnings result_data "string list"
| SolverError string

fun which_r :: "result_t \<Rightarrow> nat" where
  "which_r NoSolution = 0"
| "which_r (Result r) = 1"
| "which_r (ResultWithWarnings r w) = 2"
| "which_r (SolverError e) = 3"

definition SOLVER_NO_SOLUTION :: nat where
  "SOLVER_NO_SOLUTION = 0"

text \<open>
  The enumeration \<open>Ipopt::SolverReturn\<close> of the engine (declared in its header
  \<open>IpAlgTypes.hpp\<close>, outside this repository): the sixteen statuses that \<open>finalize_solution\<close>
  names, and \<open>UNASSIGNED\<close>, which it does not name.
\<close>

datatype SolverReturn =
  SUCCESS
| MAXITER_EXCEEDED
| CPUTIME_EXCEEDED
| STOP_AT_TINY_STEP
| STOP_AT_ACCEPTABLE_POINT
| LOCAL_INFEASIBILITY
| USER_REQUESTED_STOP
| FEASIBLE_POINT_FOUND
| DIVERGING_ITERATES
| RESTORATION_FAILURE
| ERROR_IN_STEP_COMPUTATION
| INVALID_NUMBER_DETECTED
| TOO_FEW_DEGREES_OF_FREEDOM
| INVALID_OPTION
| OUT_OF_MEMORY
| INTERNAL_ERROR
| UNASSIGNED


section \<open>The dense adapter (ipopt.cc)\<close>

text \<open>
  Every call the adapter makes into a function of the problem is recorded, in order, in
  \<open>evaluations\<close>; the field exists only to state how often the adapter evaluates.
\<close>

datatype evaluation =
  EvalCost vector_t
| EvalCostGradient vector_t
| EvalConstraint nat vector_t
| EvalConstraintJacobian nat vector_t

record tnlp =
  cost_' :: vector_t
  costGradient_' :: vector_t
  constraints_' :: matrix_t
  jacobian_' :: matrix_t
  result_' :: result_t
  evaluations :: "evaluation list"

definition constraintsOutputSize :: "'j problem_t \<Rightarrow> nat" where
  "constraintsOutputSize p = foldl (\<lambda>result c. result + outputSize (g_of c)) 0 (constraints p)"

text \<open>
  The constructor: \<open>cost_ (1)\<close>, \<open>costGradient_ (n)\<close>, and \<open>constraints_\<close> and \<open>jacobian_\<close> with
  \<open>constraintsOutputSize ()\<close> rows and \<open>n\<close> columns.  Eigen leaves the coefficients
  uninitialised; \<open>u\<close> stands for what the memory holds.  The result of the solver starts as
  \<open>NoSolution\<close>, and nothing has been evaluated.
\<close>

definition Tnlp :: "matrix_t problem_t \<Rightarrow> dbl \<Rightarrow> tnlp" where
  "Tnlp p u =
     \<lparr>cost_' = replicate 1 u,
      costGradient_' = replicate (inputSize (objective p)) u,
      constraints_' = replicate (constraintsOutputSize p) (replicate (inputSize (objective p)) u),
      jacobian_' = replicate (constraintsOutputSize p) (replicate (inputSize (objective p)) u),
      result_' = NoSolution,
      evaluations = []\<rparr>"

text \<open>
  Returns \<open>(n, m, nnz_jac_g, nnz_h_lag)\<close>; the index style is always \<open>C_STYLE\<close>.  Sizes are
  natural numbers here.  The source holds the four numbers in the 32-bit \<open>Index\<close> of the
  engine, so the model is the source as long as \<open>n * m\<close> and \<open>n * (n + 1)\<close> are below \<open>2^31\<close>;
  nothing below depends on larger sizes.
\<close>

definition get_nlp_info :: "matrix_t problem_t \<Rightarrow> nat \<times> nat \<times> nat \<times> nat" where
  "get_nlp_info p =
     (let n = inputSize (objective p);
          m = constraintsOutputSize p
      in (n, m, n * m, n * (n + 1) div 2))"

text \<open>Returns what is written through \<open>x_l\<close>, \<open>x_u\<close>, \<open>g_l\<close>, \<open>g_u\<close>, in order.\<close>

definition get_bounds_info ::
  "matrix_t problem_t \<Rightarrow> nat \<Rightarrow> nat \<Rightarrow> error + (dbl list \<times> dbl list \<times> dbl list \<times> dbl list)" where
  "get_bounds_info p n m =
     (if inputSize (objective p) \<noteq> n then Inl AssertionFailed
      else if constraintsOutputSize p \<noteq> m then Inl AssertionFailed
      else Inr (map fst (argumentBounds p), map snd (argumentBounds p),
                map fst (concat (boundsVector p)), map snd (concat (boundsVector p))))"

text \<open>
  The inner loop \<open>for (j = 0; j < scalesVector ()[i].size (); ++j) g_scaling[i] = scalesVector ()[i][j]\<close>,
  on the \<open>i\<close>-th scale vector \<open>sv\<close>.
\<close>

fun scaling_inner :: "dbl list \<Rightarrow> nat \<Rightarrow> dbl list \<Rightarrow> error + dbl list" where
  "scaling_inner [] i g_scaling = Inr g_scaling"
| "scaling_inner (s # sv) i g_scaling =
     (if i < length g_scaling then scaling_inner sv i (g_scaling[i := s])
      else Inl BufferOverflow)"

text \<open>The outer loop \<open>for (i = ...; i < m; ++i)\<close>, started at \<open>i\<close>.\<close>

function scaling_outer :: "dbl list list \<Rightarrow> nat \<Rightarrow> nat \<Rightarrow> dbl list \<Rightarrow> error + dbl list" where
  "scaling_outer svs i m g_scaling =
     (if i < m then
        (if i < length svs then
           (case scaling_inner (svs ! i) i g_scaling of
              Inl e \<Rightarrow> Inl e
            | Inr g_scaling' \<Rightarrow> scaling_outer svs (Suc i) m g_scaling')
         else Inl OutOfRange)
      else Inr g_scaling)"
  by pat_completeness auto
termination
  by (relation "measure (\<lambda>(svs, i, m, g). m - i)") auto

text \<open>
  \<open>x_scaling\<close> and \<open>g_scaling\<close> are the engine's arrays; the result is
  \<open>(use_x_scaling, x_scaling, use_g_scaling, g_scaling)\<close> after the call.
\<close>

definition get_scaling_parameters ::
  "matrix_t problem_t \<Rightarrow> nat \<Rightarrow> dbl list \<Rightarrow> nat \<Rightarrow> dbl list
     \<Rightarrow> error + (bool \<times> dbl list \<times> bool \<times> dbl list)" where
  "get_scaling_parameters p n x_scaling m g_scaling =
     (if length (argumentScales p) \<noteq> n then Inl AssertionFailed
      else if length x_scaling < length (argumentScales p) then Inl BufferOverflow
      else
        (case scaling_outer (scalesVector p) 0 m g_scaling of
           Inl e \<Rightarrow> Inl e
         | Inr g_scaling' \<Rightarrow>
             Inr (True, argumentScales p @ drop (length (argumentScales p)) x_scaling,
                  True, g_scaling')))"

text \<open>
  Returns the state, the boolean handed back to the engine, and the arrays \<open>x\<close>, \<open>z_L\<close>,
  \<open>z_U\<close> after the call.
\<close>

definition get_starting_point ::
  "matrix_t problem_t \<Rightarrow> tnlp \<Rightarrow> nat \<Rightarrow> bool \<Rightarrow> vector_t \<Rightarrow> bool \<Rightarrow> vector_t \<Rightarrow> vector_t
     \<Rightarrow> nat \<Rightarrow> bool \<Rightarrow> error + (tnlp \<times> bool \<times> vector_t \<times> vector_t \<times> vector_t)" where
  "get_starting_point p st n init_x x init_z z_L z_U m init_lambda =
     (if inputSize (objective p) \<noteq> n then Inl AssertionFailed
      else if constraintsOutputSize p \<noteq> m then Inl AssertionFailed
      else if init_lambda \<noteq> False then Inl AssertionFailed
      else if init_z \<and> (length z_L < n \<or> length z_U < n) then Inl BufferOverflow
      else
        (let z_L' = (if init_z then replicate n (Fin 1) @ drop n z_L else z_L);
             z_U' = (if init_z then replicate n (Fin 1) @ drop n z_U else z_U)
         in case startingPoint p of
              None \<Rightarrow>
                (if init_x
                 then Inr (st\<lparr>result_' := SolverError ''Ipopt method needs a starting point.''\<rparr>,
                           False, x, z_L', z_U')
                 else Inr (st, True, x, z_L', z_U'))
            | Some sp \<Rightarrow>
                (if length sp \<noteq> n then Inl EigenAssertion
                 else if length x < n then Inl BufferOverflow
                 else Inr (st, True, sp @ drop n x, z_L', z_U'))))"

definition eval_f ::
  "matrix_t problem_t \<Rightarrow> tnlp \<Rightarrow> nat \<Rightarrow> vector_t \<Rightarrow> bool \<Rightarrow> error + (tnlp \<times> dbl)" where
  "eval_f p st n x new_x =
     (if inputSize (objective p) \<noteq> n then Inl AssertionFailed
      else
        (let st' = (if new_x
                    then st\<lparr>cost_' := call (objective p) (take n x),
                            evaluations := evaluations st @ [EvalCost (take n x)]\<rparr>
                    else st)
         in case cost_' st' of
              [] \<Rightarrow> Inl OutOfRange
            | obj_value # rest \<Rightarrow> Inr (st', obj_value)))"

definition eval_grad_f ::
  "matrix_t problem_t \<Rightarrow> tnlp \<Rightarrow> nat \<Rightarrow> vector_t \<Rightarrow> bool \<Rightarrow> error + (tnlp \<times> vector_t)" where
  "eval_grad_f p st n x new_x =
     (if inputSize (objective p) \<noteq> n then Inl AssertionFailed
      else
        (let st' = (if new_x
                    then st\<lparr>costGradient_' := gradient (objective p) (take n x) 0,
                            evaluations := evaluations st @ [EvalCostGradient (take n x)]\<rparr>
                    else st)
         in if length (costGradient_' st') \<noteq> n then Inl EigenAssertion
            else Inr (st', costGradient_' st')))"

text \<open>
  \<open>M.block (idx, 0, rows, n) = B\<close>: Eigen asserts that the block lies inside \<open>M\<close> and that
  \<open>B\<close> has the dimensions of the block.
\<close>

definition block_assign :: "matrix_t \<Rightarrow> nat \<Rightarrow> nat \<Rightarrow> nat \<Rightarrow> matrix_t \<Rightarrow> error + matrix_t" where
  "block_assign M idx rows n B =
     (if idx + rows \<le> length M \<and> list_all (\<lambda>r. n \<le> length r) M
         \<and> length B = rows \<and> list_all (\<lambda>r. length r = n) B
      then Inr (take idx M @ map2 (\<lambda>b r. b @ drop n r) B (take rows (drop idx M))
                  @ drop (idx + rows) M)
      else Inl EigenAssertion)"

text \<open>A vector, seen as the one-column matrix it is.\<close>

definition as_column :: "vector_t \<Rightarrow> matrix_t" where
  "as_column v = map (\<lambda>a. [a]) v"

text \<open>\<open>Eigen::Map<matrix_t> dst (ptr, m, n); dst = M\<close>: the map cannot be resized.\<close>

definition map_assign :: "nat \<Rightarrow> nat \<Rightarrow> matrix_t \<Rightarrow> error + matrix_t" where
  "map_assign m n M =
     (if length M = m \<and> list_all (\<lambda>r. length r = n) M then Inr M else Inl EigenAssertion)"

fun eval_g_loop ::
  "vector_t \<Rightarrow> nat \<Rightarrow> matrix_t constraint list \<Rightarrow> nat \<Rightarrow> nat \<Rightarrow> matrix_t \<Rightarrow> evaluation list
     \<Rightarrow> error + (matrix_t \<times> evaluation list)" where
  "eval_g_loop x n [] k idx M evs = Inr (M, evs)"
| "eval_g_loop x n (c # cs) k idx M evs =
     (case block_assign M idx (outputSize (g_of c)) n (as_column (call (g_of c) x)) of
        Inl e \<Rightarrow> Inl e
      | Inr M' \<Rightarrow>
          eval_g_loop x n cs (Suc k) (idx + outputSize (g_of c)) M' (evs @ [EvalConstraint k x]))"

text \<open>
  The engine's array \<open>g\<close> has \<open>g_len\<close> entries; the call writes an \<open>m\<close> by \<open>n\<close> matrix
  through it.  The result carries that matrix.
\<close>

definition eval_g ::
  "matrix_t problem_t \<Rightarrow> tnlp \<Rightarrow> nat \<Rightarrow> vector_t \<Rightarrow> bool \<Rightarrow> nat \<Rightarrow> nat
     \<Rightarrow> error + (tnlp \<times> matrix_t)" where
  "eval_g p st n x new_x m g_len =
     (if inputSize (objective p) \<noteq> n then Inl AssertionFailed
      else if length (constraints p) \<noteq> m then Inl AssertionFailed
      else
        (case (if new_x
               then eval_g_loop (take n x) n (constraints p) 0 0 (constraints_' st) (evaluations st)
               else Inr (constraints_' st, evaluations st)) of
           Inl e \<Rightarrow> Inl e
         | Inr (M, evs) \<Rightarrow>
             (case map_assign m n M of
                Inl e \<Rightarrow> Inl e
              | Inr G \<Rightarrow>
                  if g_len < m * n then Inl BufferOverflow
                  else Inr (st\<lparr>constraints_' := M, evaluations := evs\<rparr>, G))))"

fun eval_jac_g_loop ::
  "vector_t \<Rightarrow> nat \<Rightarrow> matrix_t constraint list \<Rightarrow> nat \<Rightarrow> nat \<Rightarrow> matrix_t \<Rightarrow> evaluation list
     \<Rightarrow> error + (matrix_t \<times> evaluation list)" where
  "eval_jac_g_loop x n [] k idx M evs = Inr (M, evs)"
| "eval_jac_g_loop x n (c # cs) k idx M evs =
     (case block_assign M idx (outputSize (g_of c)) n (jacobian (g_of c) x) of
        Inl e \<Rightarrow> Inl e
      | Inr M' \<Rightarrow>
          eval_jac_g_loop x n cs (Suc k) (idx + outputSize (g_of c)) M'
            (evs @ [EvalConstraintJacobian k x]))"

datatype jac_out = Structure "nat list" "nat list" | Values matrix_t

text \<open>
  \<open>values_given\<close> is false when the engine passes a null \<open>values\<close> pointer; the call then
  returns what it writes to \<open>iRow\<close> and \<open>jCol\<close>, from index 0 on.
\<close>

definition eval_jac_g ::
  "matrix_t problem_t \<Rightarrow> tnlp \<Rightarrow> nat \<Rightarrow> vector_t \<Rightarrow> bool \<Rightarrow> nat \<Rightarrow> nat \<Rightarrow> bool
     \<Rightarrow> error + (tnlp \<times> jac_out)" where
  "eval_jac_g p st n x new_x m nele_jac values_given =
     (if inputSize (objective p) \<noteq> n then Inl AssertionFailed
      else if length (constraints p) \<noteq> m then Inl AssertionFailed
      else if \<not> values_given then
        (if nele_jac < m * n then Inl BufferOverflow
         else Inr (st, Structure
                     (concat (map (\<lambda>i. map (\<lambda>j. i) [0..<n]) [0..<m]))
                     (concat (map (\<lambda>i. map (\<lambda>j. j) [0..<n]) [0..<m]))))
      else
        (case (if new_x
               then eval_jac_g_loop (take n x) n (constraints p) 0 0 (jacobian_' st) (evaluations st)
               else Inr (jacobian_' st, evaluations st)) of
           Inl e \<Rightarrow> Inl e
         | Inr (M, evs) \<Rightarrow>
             (case map_assign m n M of
                Inl e \<Rightarrow> Inl e
              | Inr V \<Rightarrow>
                  if nele_jac < m * n then Inl BufferOverflow
                  else Inr (st\<lparr>jacobian_' := M, evaluations := evs\<rparr>, Values V))))"

text \<open>\<open>array_to_vector (dst, src)\<close> copies \<open>dst.size ()\<close> numbers from the array.\<close>

definition array_to_vector :: "nat \<Rightarrow> dbl list \<Rightarrow> vector_t" where
  "array_to_vector sz src = take sz src"

text \<open>The macro \<open>FILL_RESULT\<close> on a result built by \<open>Result res (n, 1)\<close>.\<close>

definition FILL_RESULT :: "nat \<Rightarrow> dbl list \<Rightarrow> nat \<Rightarrow> dbl list \<Rightarrow> dbl list \<Rightarrow> dbl \<Rightarrow> result_data" where
  "FILL_RESULT n x m g lambda obj_value =
     \<lparr>res_x = array_to_vector n x,
      res_constraints = array_to_vector m g,
      res_lambda = array_to_vector m lambda,
      res_value = [obj_value]\<rparr>"

text \<open>The table \<open>MAP_IPOPT_ERRORS\<close>: status and reason, one line for each \<open>MACRO\<close>.\<close>

definition MAP_IPOPT_ERRORS :: "(SolverReturn \<times> string) list" where
  "MAP_IPOPT_ERRORS =
     [(MAXITER_EXCEEDED, ''Max iteration exceeded''),
      (STOP_AT_TINY_STEP, ''Algorithm proceeds with very little progress''),
      (LOCAL_INFEASIBILITY, ''Algorithm converged to a point of local infeasibility''),
      (DIVERGING_ITERATES, ''Iterate diverges''),
      (RESTORATION_FAILURE, ''Restoration phase failed''),
      (ERROR_IN_STEP_COMPUTATION,
         ''Unrecoverable error while Ipopt tried to compute the search direction''),
      (INVALID_NUMBER_DETECTED, ''Ipopt received an invalid number''),
      (INTERNAL_ERROR, ''Unknown internal error''),
      (TOO_FEW_DEGREES_OF_FREEDOM, ''Two few degrees of freedom''),
      (INVALID_OPTION, ''Invalid option''),
      (OUT_OF_MEMORY, ''Out of memory''),
      (CPUTIME_EXCEEDED, ''Cpu time exceeded'')]"

definition MAP_IPOPT_FATALS :: "SolverReturn list" where
  "MAP_IPOPT_FATALS = [USER_REQUESTED_STOP]"

text \<open>
  The \<open>switch (status)\<close>, which has no default label: the new value of \<open>solver_.result_\<close>
  (the old one when no label matches), or the failure of \<open>assert (0)\<close>.
\<close>

definition switch_status ::
  "SolverReturn \<Rightarrow> nat \<Rightarrow> dbl list \<Rightarrow> nat \<Rightarrow> dbl list \<Rightarrow> dbl list \<Rightarrow> dbl \<Rightarrow> result_t
     \<Rightarrow> error + result_t" where
  "switch_status status n x m g lambda obj_value result =
     (if status = FEASIBLE_POINT_FOUND \<or> status = SUCCESS then
        Inr (Result (FILL_RESULT n x m g lambda obj_value))
      else if status = STOP_AT_ACCEPTABLE_POINT then
        Inr (ResultWithWarnings (FILL_RESULT n x m g lambda obj_value) [''Acceptable point''])
      else
        (case map_of MAP_IPOPT_ERRORS status of
           Some ERROR \<Rightarrow> Inr (SolverError ERROR)
         | None \<Rightarrow>
             if status \<in> set MAP_IPOPT_FATALS then Inl AssertionFailed
             else Inr result))"

definition finalize_solution ::
  "matrix_t problem_t \<Rightarrow> tnlp \<Rightarrow> SolverReturn \<Rightarrow> nat \<Rightarrow> dbl list \<Rightarrow> nat \<Rightarrow> dbl list
     \<Rightarrow> dbl list \<Rightarrow> dbl \<Rightarrow> error + tnlp" where
  "finalize_solution p st status n x m g lambda obj_value =
     (if inputSize (objective p) \<noteq> n then Inl AssertionFailed
      else if constraintsOutputSize p \<noteq> m then Inl AssertionFailed
      else
        (case switch_status status n x m g lambda obj_value (result_' st) of
           Inl e \<Rightarrow> Inl e
         | Inr r \<Rightarrow>
             if which_r r \<noteq> SOLVER_NO_SOLUTION then Inr (st\<lparr>result_' := r\<rparr>)
             else Inl AssertionFailed))"


text \<open>How often the objective has been evaluated.\<close>

definition objectiveEvaluations :: "tnlp \<Rightarrow> nat" where
  "objectiveEvaluations st =
     length (filter (\<lambda>e. case e of EvalCost x \<Rightarrow> True | _ \<Rightarrow> False) (evaluations st))"


section \<open>The sparse adapter (tnlp.cc)\<close>

text \<open>
  \<open>StorageOrder\<close> is a constant of roboptim-core; it is a parameter (\<open>so\<close>) of everything
  that depends on it.  A sparse matrix holds its dimensions and its stored coefficients
  \<open>(row, column, value)\<close>, in storage order.
\<close>

datatype storage_order = ColMajor | RowMajor

type_synonym triplet_t = "nat \<times> nat \<times> dbl"

record jacobian_t =
  rows :: nat
  cols :: nat
  stored :: "triplet_t list"

definition outer_of :: "storage_order \<Rightarrow> nat \<times> nat \<Rightarrow> nat" where
  "outer_of so rc = (case so of ColMajor \<Rightarrow> snd rc | RowMajor \<Rightarrow> fst rc)"

definition inner_of :: "storage_order \<Rightarrow> nat \<times> nat \<Rightarrow> nat" where
  "inner_of so rc = (case so of ColMajor \<Rightarrow> fst rc | RowMajor \<Rightarrow> snd rc)"

definition coord :: "triplet_t \<Rightarrow> nat \<times> nat" where
  "coord t = (fst t, fst (snd t))"

definition coeff :: "triplet_t \<Rightarrow> dbl" where
  "coeff t = snd (snd t)"

definition outerSize :: "storage_order \<Rightarrow> jacobian_t \<Rightarrow> nat" where
  "outerSize so M = (case so of ColMajor \<Rightarrow> cols M | RowMajor \<Rightarrow> rows M)"

definition nonZeros :: "jacobian_t \<Rightarrow> nat" where
  "nonZeros M = length (stored M)"

text \<open>\<open>InnerIterator it (M, k)\<close>: the stored coefficients of the \<open>k\<close>-th outer vector.\<close>

definition InnerIterator :: "storage_order \<Rightarrow> jacobian_t \<Rightarrow> nat \<Rightarrow> triplet_t list" where
  "InnerIterator so M k = filter (\<lambda>t. outer_of so (coord t) = k) (stored M)"

text \<open>\<open>for (k = 0; k < M.outerSize (); ++k) for (InnerIterator it (M, k); it; ++it)\<close>\<close>

definition sweep :: "storage_order \<Rightarrow> jacobian_t \<Rightarrow> triplet_t list" where
  "sweep so M = concat (map (InnerIterator so M) [0..<outerSize so M])"

text \<open>Storage order on coordinates: by outer index, then by inner index.\<close>

definition before :: "storage_order \<Rightarrow> nat \<times> nat \<Rightarrow> nat \<times> nat \<Rightarrow> bool" where
  "before so a b =
     (outer_of so a < outer_of so b
      \<or> (outer_of so a = outer_of so b \<and> inner_of so a < inner_of so b))"

text \<open>
  \<open>setFromTriplets\<close> (Eigen): the coefficients end up in storage order, those with the same
  coordinates summed; a triplet outside the matrix fails an Eigen assertion.
\<close>

fun insert_triplet :: "storage_order \<Rightarrow> triplet_t \<Rightarrow> triplet_t list \<Rightarrow> triplet_t list" where
  "insert_triplet so t [] = [t]"
| "insert_triplet so t (e # es) =
     (if coord t = coord e then (fst e, fst (snd e), dbl_plus (coeff e) (coeff t)) # es
      else if before so (coord t) (coord e) then t # e # es
      else e # insert_triplet so t es)"

definition setFromTriplets ::
  "storage_order \<Rightarrow> jacobian_t \<Rightarrow> triplet_t list \<Rightarrow> error + jacobian_t" where
  "setFromTriplets so M ts =
     (if list_all (\<lambda>t. fst (coord t) < rows M \<and> snd (coord t) < cols M) ts
      then Inr (M\<lparr>stored := foldl (\<lambda>acc t. insert_triplet so t acc) [] ts\<rparr>)
      else Inl EigenAssertion)"

text \<open>\<open>jac *= 0.\<close>: every stored coefficient is multiplied, the positions stay.\<close>

definition times_zero :: "jacobian_t \<Rightarrow> jacobian_t" where
  "times_zero M = M\<lparr>stored := map (\<lambda>t. (fst t, fst (snd t), dbl_times_zero (coeff t))) (stored M)\<rparr>"

text \<open>
  The members \<open>jacobian_\<close> and \<open>constraintJacobians_\<close>; \<open>jacobianEvaluations\<close> records each call
  \<open>g->jacobian (x)\<close> made by the structural query (constraint id and point) and exists only
  to state how often that query evaluates.
\<close>

record tnlp_sparse =
  sparse_jacobian_' :: "jacobian_t option"
  constraintJacobians_' :: "jacobian_t list"
  jacobianEvaluations :: "(nat \<times> vector_t) list"

text \<open>Returns \<open>(n, m, nnz_jac_g, nnz_h_lag)\<close>.\<close>

definition get_nlp_info_sparse :: "jacobian_t problem_t \<Rightarrow> nat \<times> nat \<times> nat \<times> nat" where
  "get_nlp_info_sparse p =
     (let n = inputSize (objective p);
          m = constraintsOutputSize p;
          x = (case startingPoint p of Some sp \<Rightarrow> sp | None \<Rightarrow> replicate n (Fin 0));
          nnz_jac_g = foldl (\<lambda>nnz c. nnz + nonZeros (jacobian (g_of c) x)) 0 (constraints p)
      in (n, m, nnz_jac_g, 0))"

text \<open>The value given to \<open>x[i]\<close> from the interval \<open>boundsVector ()[constraintId][ii]\<close>.\<close>

definition synthesize_component :: "interval_t \<Rightarrow> dbl" where
  "synthesize_component b =
     (if dbl_neq (fst b) Function_infinity \<and> dbl_neq (snd b) Function_infinity
      then dbl_half (dbl_minus (snd b) (fst b))
      else if dbl_neq (fst b) Function_infinity then fst b
      else snd b)"

text \<open>The loop over the components \<open>i\<close> of \<open>x\<close>; reading outside a vector is an error.\<close>

fun synthesize_loop :: "interval_t list list \<Rightarrow> nat \<Rightarrow> nat list \<Rightarrow> error + vector_t" where
  "synthesize_loop bv constraintId [] = Inr []"
| "synthesize_loop bv constraintId (i # rest) =
     (if constraintId < length bv \<and> i < length (bv ! constraintId) then
        (case synthesize_loop bv constraintId rest of
           Inl e \<Rightarrow> Inl e
         | Inr xs \<Rightarrow> Inr (synthesize_component (bv ! constraintId ! i) # xs))
      else Inl OutOfRange)"

definition synthesize_point :: "jacobian_t problem_t \<Rightarrow> nat \<Rightarrow> nat \<Rightarrow> error + vector_t" where
  "synthesize_point p n constraintId =
     (case startingPoint p of
        None \<Rightarrow> synthesize_loop (boundsVector p) constraintId [0..<n]
      | Some sp \<Rightarrow> Inr sp)"

text \<open>\<open>triplet_t (idx + it.row (), it.col (), it.value ())\<close>\<close>

definition global_triplet :: "nat \<Rightarrow> triplet_t \<Rightarrow> triplet_t" where
  "global_triplet idx t = (idx + fst t, fst (snd t), coeff t)"

text \<open>
  The loop over the constraints of the structural query.  The accumulator is
  \<open>(idx, constraintId, coefficients, constraintJacobians_, jacobianEvaluations)\<close>.
\<close>

fun structure_loop ::
  "storage_order \<Rightarrow> jacobian_t problem_t \<Rightarrow> nat \<Rightarrow> jacobian_t constraint list
     \<Rightarrow> nat \<times> nat \<times> triplet_t list \<times> jacobian_t list \<times> (nat \<times> vector_t) list
     \<Rightarrow> error + (nat \<times> nat \<times> triplet_t list \<times> jacobian_t list \<times> (nat \<times> vector_t) list)" where
  "structure_loop so p n [] acc = Inr acc"
| "structure_loop so p n (c # cs) (idx, constraintId, coefficients, cjs, evs) =
     (case synthesize_point p n constraintId of
        Inl e \<Rightarrow> Inl e
      | Inr x \<Rightarrow>
          (let tmp_jac = jacobian (g_of c) x
           in structure_loop so p n cs
                (idx + outputSize (g_of c), Suc constraintId,
                 coefficients @ map (global_triplet idx) (sweep so tmp_jac),
                 cjs @ [tmp_jac],
                 evs @ [(constraintId, x)])))"

text \<open>\<open>iRow[idx] = it.row (), jCol[idx] = it.col (); ++idx\<close> for each coefficient.\<close>

fun emit :: "triplet_t list \<Rightarrow> nat \<Rightarrow> nat list \<Rightarrow> nat list \<Rightarrow> error + (nat list \<times> nat list)" where
  "emit [] idx iRow jCol = Inr (iRow, jCol)"
| "emit (t # ts) idx iRow jCol =
     (if idx < length iRow \<and> idx < length jCol
      then emit ts (Suc idx) (iRow[idx := fst t]) (jCol[idx := fst (snd t)])
      else Inl BufferOverflow)"

text \<open>
  The loop over the constraints of a numeric call: each stored Jacobian is zeroed in place
  and handed to the function (\<open>IpoptCheckGradient\<close> changes nothing here).
\<close>

fun numeric_loop ::
  "vector_t \<Rightarrow> jacobian_t constraint list \<Rightarrow> nat \<Rightarrow> jacobian_t list \<Rightarrow> error + jacobian_t list" where
  "numeric_loop x [] constraintId cjs = Inr cjs"
| "numeric_loop x (c # cs) constraintId cjs =
     (if constraintId < length cjs
      then numeric_loop x cs (Suc constraintId)
             (cjs[constraintId := jacobian_fill (g_of c) (times_zero (cjs ! constraintId)) x])
      else Inl OutOfRange)"

text \<open>The coefficients visited by the copy loops, in order.\<close>

definition copy_order :: "storage_order \<Rightarrow> nat \<Rightarrow> jacobian_t list \<Rightarrow> triplet_t list" where
  "copy_order so inputSize_f cjs =
     (if so = ColMajor
      then concat (map (\<lambda>k. concat (map (\<lambda>g. InnerIterator so g k) cjs)) [0..<inputSize_f])
      else concat (map (\<lambda>g. concat (map (\<lambda>k. InnerIterator so g k) [0..<outerSize so g])) cjs))"

text \<open>\<open>assert (idx < nele_jac); values[idx++] = it.value ()\<close> for each visited coefficient.\<close>

fun write_values :: "dbl list \<Rightarrow> nat \<Rightarrow> nat \<Rightarrow> dbl list \<Rightarrow> error + dbl list" where
  "write_values [] idx nele_jac vals = Inr vals"
| "write_values (v # vs) idx nele_jac vals =
     (if idx < nele_jac then
        (if idx < length vals then write_values vs (Suc idx) nele_jac (vals[idx := v])
         else Inl BufferOverflow)
      else Inl AssertionFailed)"

datatype sparse_jac_out = SparseStructure "nat list" "nat list" | SparseValues "dbl list"

text \<open>
  \<open>vals\<close> is \<open>None\<close> for a null \<open>values\<close> pointer, otherwise the engine's array; \<open>iRow\<close> and
  \<open>jCol\<close> have \<open>nele_jac\<close> entries.
\<close>

definition eval_jac_g_sparse ::
  "storage_order \<Rightarrow> jacobian_t problem_t \<Rightarrow> tnlp_sparse \<Rightarrow> nat \<Rightarrow> vector_t \<Rightarrow> bool \<Rightarrow> nat \<Rightarrow> nat
     \<Rightarrow> dbl list option \<Rightarrow> error + (tnlp_sparse \<times> sparse_jac_out)" where
  "eval_jac_g_sparse so p st n x new_x m nele_jac vals =
     (if inputSize (objective p) \<noteq> n then Inl AssertionFailed
      else if constraintsOutputSize p \<noteq> m then Inl AssertionFailed
      else
        (let J = (case sparse_jacobian_' st of
                    None \<Rightarrow> \<lparr>rows = constraintsOutputSize p, cols = inputSize (objective p),
                              stored = []\<rparr>
                  | Some J0 \<Rightarrow> J0)
         in case vals of
              None \<Rightarrow>
                (case structure_loop so p n (constraints p)
                        (0, 0, [], constraintJacobians_' st, jacobianEvaluations st) of
                   Inl e \<Rightarrow> Inl e
                 | Inr (idx, constraintId, coefficients, cjs, evs) \<Rightarrow>
                     (case setFromTriplets so J coefficients of
                        Inl e \<Rightarrow> Inl e
                      | Inr J' \<Rightarrow>
                          (case emit (sweep so J') 0 (replicate nele_jac 0) (replicate nele_jac 0) of
                             Inl e \<Rightarrow> Inl e
                           | Inr (iRow, jCol) \<Rightarrow>
                               Inr (\<lparr>sparse_jacobian_' = Some J', constraintJacobians_' = cjs,
                                     jacobianEvaluations = evs\<rparr>,
                                    SparseStructure iRow jCol))))
            | Some vals0 \<Rightarrow>
                (case numeric_loop (take n x) (constraints p) 0 (constraintJacobians_' st) of
                   Inl e \<Rightarrow> Inl e
                 | Inr cjs \<Rightarrow>
                     (case write_values (map coeff (copy_order so (inputSize (objective p)) cjs))
                             0 nele_jac vals0 of
                        Inl e \<Rightarrow> Inl e
                      | Inr vals' \<Rightarrow>
                          Inr (\<lparr>sparse_jacobian_' = Some J, constraintJacobians_' = cjs,
                                jacobianEvaluations = jacobianEvaluations st\<rparr>,
                               SparseValues vals')))))"



section \<open>Notions used to state the properties\<close>

text \<open>
  A compressed sparse matrix of the given size: every stored coefficient lies inside the
  matrix, and the coefficients are stored in storage order, no position twice.
\<close>

definition wf_jacobian :: "storage_order \<Rightarrow> nat \<Rightarrow> nat \<Rightarrow> jacobian_t \<Rightarrow> bool" where
  "wf_jacobian so nr nc M =
     (rows M = nr \<and> cols M = nc
      \<and> list_all (\<lambda>t. fst (coord t) < nr \<and> snd (coord t) < nc) (stored M)
      \<and> sorted_wrt (before so) (map coord (stored M)))"


text \<open>The first rows of the constraints \<open>cs\<close>, the first of them at row \<open>idx\<close>.\<close>

fun offsets :: "nat \<Rightarrow> 'j constraint list \<Rightarrow> nat list" where
  "offsets idx [] = []"
| "offsets idx (c # cs) = idx # offsets (idx + outputSize (g_of c)) cs"

text \<open>
  \<open>copy_order\<close> on matrices paired with the first row of their constraint, each visited
  coefficient with the row it has in the whole Jacobian.
\<close>

definition copy_order_global ::
  "storage_order \<Rightarrow> nat \<Rightarrow> (nat \<times> jacobian_t) list \<Rightarrow> triplet_t list" where
  "copy_order_global so inputSize_f zs =
     (if so = ColMajor
      then concat (map (\<lambda>k. concat (map (\<lambda>z. map (global_triplet (fst z))
                                               (InnerIterator so (snd z) k)) zs))
                    [0..<inputSize_f])
      else concat (map (\<lambda>z. map (global_triplet (fst z))
                               (concat (map (\<lambda>k. InnerIterator so (snd z) k)
                                          [0..<outerSize so (snd z)]))) zs))"



section \<open>Concrete problems\<close>

text \<open>The identity on one variable, with its derivative.\<close>

definition identity_function :: "matrix_t function_t" where
  "identity_function =
     \<lparr>inputSize = 1, outputSize = 1, call = (\<lambda>x. x), gradient = (\<lambda>x i. [Fin 1]),
      jacobian = (\<lambda>x. [[Fin 1]]), jacobian_fill = (\<lambda>J x. [[Fin 1]])\<rparr>"

text \<open>A function of one variable with \<open>k\<close> outputs, all of them constant.\<close>

definition constant_function :: "nat \<Rightarrow> matrix_t function_t" where
  "constant_function k =
     \<lparr>inputSize = 1, outputSize = k, call = (\<lambda>x. replicate k (Fin 0)),
      gradient = (\<lambda>x i. [Fin 0]), jacobian = (\<lambda>x. replicate k [Fin 0]),
      jacobian_fill = (\<lambda>J x. replicate k [Fin 0])\<rparr>"

text \<open>One variable, the given constraints, bounds and scales, and the given starting point.\<close>

definition dense_problem ::
  "matrix_t constraint list \<Rightarrow> interval_t list list \<Rightarrow> dbl list list \<Rightarrow> vector_t option
     \<Rightarrow> matrix_t problem_t" where
  "dense_problem cs bv sv sp =
     \<lparr>objective = identity_function, constraints = cs, argumentBounds = [(MInf, PInf)],
      boundsVector = bv, argumentScales = [Fin 1], scalesVector = sv, startingPoint = sp\<rparr>"

text \<open>One constraint with two outputs, scaled by 2 and by 3.\<close>

definition two_output_problem :: "matrix_t problem_t" where
  "two_output_problem =
     dense_problem [NonLinearC (constant_function 2)] [[(MInf, PInf), (MInf, PInf)]]
       [[Fin 2, Fin 3]] None"

text \<open>Two constraints, the first without output, the second with two outputs.\<close>

definition zero_two_problem :: "matrix_t problem_t" where
  "zero_two_problem =
     dense_problem [NonLinearC (constant_function 0), NonLinearC (constant_function 2)]
       [[], [(MInf, PInf), (MInf, PInf)]] [[], [Fin 1, Fin 1]] None"

text \<open>One constraint with one output, and a starting point.\<close>

definition scalar_problem :: "matrix_t problem_t" where
  "scalar_problem =
     dense_problem [NonLinearC identity_function] [[(MInf, PInf)]] [[Fin 1]] (Some [Fin 0])"

text \<open>The first component of a point with two components, and its derivative.\<close>

definition first_component_function :: "matrix_t function_t" where
  "first_component_function =
     \<lparr>inputSize = 2, outputSize = 1, call = (\<lambda>x. take 1 x), gradient = (\<lambda>x i. [Fin 1, Fin 0]),
      jacobian = (\<lambda>x. [[Fin 1, Fin 0]]), jacobian_fill = (\<lambda>J x. [[Fin 1, Fin 0]])\<rparr>"

text \<open>Two variables and one linear constraint with one output.\<close>

definition two_variable_problem :: "matrix_t problem_t" where
  "two_variable_problem =
     \<lparr>objective = first_component_function, constraints = [LinearC first_component_function],
      argumentBounds = [(MInf, PInf), (MInf, PInf)], boundsVector = [[(MInf, PInf)]],
      argumentScales = [Fin 1, Fin 1], scalesVector = [[Fin 1]],
      startingPoint = Some [Fin 0, Fin 0]\<rparr>"

text \<open>A sparse function of one variable whose in-place Jacobian keeps the stored positions.\<close>

definition linear_sparse_function :: "jacobian_t function_t" where
  "linear_sparse_function =
     \<lparr>inputSize = 1, outputSize = 1, call = (\<lambda>x. x), gradient = (\<lambda>x i. [Fin 3]),
      jacobian = (\<lambda>x. \<lparr>rows = 1, cols = 1, stored = [(0, 0, Fin 3)]\<rparr>),
      jacobian_fill = (\<lambda>J x. J\<lparr>stored := map (\<lambda>t. (fst t, fst (snd t), Fin 3)) (stored J)\<rparr>)\<rparr>"

text \<open>
  A sparse function of one variable whose Jacobian stores its coefficient only where it does
  not vanish; the in-place evaluation rebuilds the matrix from the coefficients.
\<close>

definition vanishing_entries :: "vector_t \<Rightarrow> triplet_t list" where
  "vanishing_entries x = (case x of [] \<Rightarrow> [] | a # rest \<Rightarrow> if a = Fin 0 then [] else [(0, 0, a)])"

definition vanishing_sparse_function :: "jacobian_t function_t" where
  "vanishing_sparse_function =
     \<lparr>inputSize = 1, outputSize = 1, call = (\<lambda>x. x), gradient = (\<lambda>x i. x),
      jacobian = (\<lambda>x. \<lparr>rows = 1, cols = 1, stored = vanishing_entries x\<rparr>),
      jacobian_fill = (\<lambda>J x. J\<lparr>stored := vanishing_entries x\<rparr>)\<rparr>"

definition sparse_problem ::
  "jacobian_t constraint list \<Rightarrow> interval_t list list \<Rightarrow> vector_t option \<Rightarrow> jacobian_t problem_t" where
  "sparse_problem cs bv sp =
     \<lparr>objective = linear_sparse_function, constraints = cs, argumentBounds = [(MInf, PInf)],
      boundsVector = bv, argumentScales = [Fin 1], scalesVector = map (map (\<lambda>b. Fin 1)) bv,
      startingPoint = sp\<rparr>"

definition fresh_tnlp_sparse :: tnlp_sparse where
  "fresh_tnlp_sparse =
     \<lparr>sparse_jacobian_' = None, constraintJacobians_' = [], jacobianEvaluations = []\<rparr>"

text \<open>One constraint on one variable, unbounded, or bounded from below.\<close>

definition unbounded_problem :: "jacobian_t problem_t" where
  "unbounded_problem = sparse_problem [LinearC linear_sparse_function] [[(MInf, PInf)]] None"

definition lower_bounded_problem :: "jacobian_t problem_t" where
  "lower_bounded_problem = sparse_problem [LinearC linear_sparse_function] [[(Fin 2, PInf)]] None"

text \<open>The same constraint, between 2 and 4, and bounded from above by 5.\<close>

definition bounded_problem :: "jacobian_t problem_t" where
  "bounded_problem = sparse_problem [LinearC linear_sparse_function] [[(Fin 2, Fin 4)]] None"

definition upper_bounded_problem :: "jacobian_t problem_t" where
  "upper_bounded_problem = sparse_problem [LinearC linear_sparse_function] [[(MInf, Fin 5)]] None"

text \<open>One linear constraint on one variable, with a starting point.\<close>

definition one_linear_problem :: "jacobian_t problem_t" where
  "one_linear_problem =
     sparse_problem [LinearC linear_sparse_function] [[(Fin 0, Fin 0)]] (Some [Fin 0])"


definition vanishing_lower_bounded_problem :: "jacobian_t problem_t" where
  "vanishing_lower_bounded_problem =
     sparse_problem [NonLinearC vanishing_sparse_function] [[(Fin 2, PInf)]] None"

text \<open>Component \<open>c\<close> of a point, NaN outside it.\<close>

definition component :: "vector_t \<Rightarrow> nat \<Rightarrow> dbl" where
  "component x c = (if c < length x then x ! c else NaN)"

text \<open>The linear function \<open>x0 + 2 x1\<close> of two variables.\<close>

definition row_sparse_function :: "jacobian_t function_t" where
  "row_sparse_function =
     \<lparr>inputSize = 2, outputSize = 1, call = (\<lambda>x. [Fin 0]), gradient = (\<lambda>x i. []),
      jacobian = (\<lambda>x. \<lparr>rows = 1, cols = 2, stored = [(0, 0, Fin 1), (0, 1, Fin 2)]\<rparr>),
      jacobian_fill =
        (\<lambda>J x. J\<lparr>stored := map (\<lambda>t. (fst t, fst (snd t), Fin (1 + real (fst (snd t)))))
                              (stored J)\<rparr>)\<rparr>"

text \<open>
  A function of two variables with two outputs whose Jacobian is diagonal, with the
  components of the point on the diagonal.
\<close>

definition diagonal_sparse_function :: "jacobian_t function_t" where
  "diagonal_sparse_function =
     \<lparr>inputSize = 2, outputSize = 2, call = (\<lambda>x. [Fin 0, Fin 0]), gradient = (\<lambda>x i. []),
      jacobian = (\<lambda>x. \<lparr>rows = 2, cols = 2,
                         stored = [(0, 0, component x 0), (1, 1, component x 1)]\<rparr>),
      jacobian_fill =
        (\<lambda>J x. J\<lparr>stored := map (\<lambda>t. (fst t, fst (snd t), component x (fst (snd t))))
                              (stored J)\<rparr>)\<rparr>"

text \<open>Two variables, the two constraints above, and a starting point.\<close>

definition two_constraint_problem :: "jacobian_t problem_t" where
  "two_constraint_problem =
     \<lparr>objective = row_sparse_function,
      constraints = [LinearC row_sparse_function, NonLinearC diagonal_sparse_function],
      argumentBounds = [(MInf, PInf), (MInf, PInf)],
      boundsVector = [[(Fin 1, Fin 1)], [(MInf, Fin 4), (MInf, Fin 4)]],
      argumentScales = [Fin 1, Fin 1], scalesVector = [[Fin 1], [Fin 1, Fin 1]],
      startingPoint = Some [Fin 5, Fin 6]\<rparr>"


section \<open>Properties of the dense adapter\<close>

lemma constraintsOutputSize_sum:
  "constraintsOutputSize p = sum_list (map (\<lambda>c. outputSize (g_of c)) (constraints p))"
proof -
  have "foldl (\<lambda>result c. result + outputSize (g_of c)) a cs
          = a + sum_list (map (\<lambda>c. outputSize (g_of c)) cs)" for a and cs :: "'a constraint list"
    by (induction cs arbitrary: a) auto
  then show ?thesis by (simp add: constraintsOutputSize_def)
qed



subsection \<open>The outcome of a solve\<close>

lemma switch_status_error:
  "(status, reason) \<in> set MAP_IPOPT_ERRORS \<Longrightarrow>
     switch_status status n x m g lambda obj_value r = Inr (SolverError reason)"
  by (cases status) (auto simp: MAP_IPOPT_ERRORS_def switch_status_def)

lemma status_cover:
  "status \<in> {SUCCESS, FEASIBLE_POINT_FOUND, STOP_AT_ACCEPTABLE_POINT, USER_REQUESTED_STOP,
               UNASSIGNED} \<union> fst ` set MAP_IPOPT_ERRORS"
  by (cases status) (simp_all add: MAP_IPOPT_ERRORS_def)

lemma finalize_success:
  assumes "inputSize (objective p) = n" and "constraintsOutputSize p = m"
    and "status \<in> {SUCCESS, FEASIBLE_POINT_FOUND}"
  shows "finalize_solution p st status n x m g lambda obj_value =
           Inr (st\<lparr>result_' := Result \<lparr>res_x = take n x, res_constraints = take m g,
                                       res_lambda = take m lambda, res_value = [obj_value]\<rparr>\<rparr>)"
  using assms
  by (auto simp: finalize_solution_def switch_status_def FILL_RESULT_def array_to_vector_def
      SOLVER_NO_SOLUTION_def)

lemma finalize_acceptable:
  assumes "inputSize (objective p) = n" and "constraintsOutputSize p = m"
    and "status = STOP_AT_ACCEPTABLE_POINT"
  shows "finalize_solution p st status n x m g lambda obj_value =
           Inr (st\<lparr>result_' := ResultWithWarnings
                  \<lparr>res_x = take n x, res_constraints = take m g,
                   res_lambda = take m lambda, res_value = [obj_value]\<rparr>
                  [''Acceptable point'']\<rparr>)"
  using assms
  by (simp add: finalize_solution_def switch_status_def FILL_RESULT_def array_to_vector_def
      SOLVER_NO_SOLUTION_def)

lemma finalize_error:
  assumes "inputSize (objective p) = n" and "constraintsOutputSize p = m"
    and that: "(status, reason) \<in> set MAP_IPOPT_ERRORS"
  shows "finalize_solution p st status n x m g lambda obj_value =
           Inr (st\<lparr>result_' := SolverError reason\<rparr>)"
  using assms(1,2) switch_status_error [OF that]
  by (simp add: finalize_solution_def SOLVER_NO_SOLUTION_def)

lemma finalize_fatal:
  assumes "inputSize (objective p) = n" and "constraintsOutputSize p = m"
    and "status = USER_REQUESTED_STOP"
  shows "finalize_solution p st status n x m g lambda obj_value = Inl AssertionFailed"
  using assms
  by (simp add: finalize_solution_def switch_status_def MAP_IPOPT_ERRORS_def MAP_IPOPT_FATALS_def)

lemma finalize_unassigned:
  assumes "inputSize (objective p) = n" and "constraintsOutputSize p = m"
    and "status = UNASSIGNED"
  shows "finalize_solution p st status n x m g lambda obj_value =
           (if which_r (result_' st) \<noteq> SOLVER_NO_SOLUTION then Inr st else Inl AssertionFailed)"
  using assms
  by (simp add: finalize_solution_def switch_status_def MAP_IPOPT_ERRORS_def MAP_IPOPT_FATALS_def)

text \<open>
  What \<open>finalize_solution\<close> does on each status, with its two assertions on \<open>n\<close> and \<open>m\<close>
  satisfied.  \<open>SUCCESS\<close> and \<open>FEASIBLE_POINT_FOUND\<close> store a \<open>Result\<close> filled with the final
  point, the constraint values, the multipliers and the objective value;
  \<open>STOP_AT_ACCEPTABLE_POINT\<close> stores a \<open>ResultWithWarnings\<close> with the warning
  \<open>Acceptable point\<close>; every status of \<open>MAP_IPOPT_ERRORS\<close> stores a \<open>SolverError\<close> with the
  reason of its line; \<open>USER_REQUESTED_STOP\<close> fails \<open>assert (0)\<close>.  On \<open>UNASSIGNED\<close>, the one
  status without a label, nothing is stored: the final assertion fails when the solver has no
  result yet, and otherwise the call returns with the result the solver had before.
\<close>

proposition finalize_solution_cases:
  assumes "inputSize (objective p) = n" and "constraintsOutputSize p = m"
  shows "(status \<in> {SUCCESS, FEASIBLE_POINT_FOUND} \<longrightarrow>
            finalize_solution p st status n x m g lambda obj_value =
              Inr (st\<lparr>result_' := Result \<lparr>res_x = take n x, res_constraints = take m g,
                                          res_lambda = take m lambda, res_value = [obj_value]\<rparr>\<rparr>))
       \<and> (status = STOP_AT_ACCEPTABLE_POINT \<longrightarrow>
            finalize_solution p st status n x m g lambda obj_value =
              Inr (st\<lparr>result_' := ResultWithWarnings
                     \<lparr>res_x = take n x, res_constraints = take m g,
                      res_lambda = take m lambda, res_value = [obj_value]\<rparr>
                     [''Acceptable point'']\<rparr>))
       \<and> (\<forall>reason. (status, reason) \<in> set MAP_IPOPT_ERRORS \<longrightarrow>
            finalize_solution p st status n x m g lambda obj_value =
              Inr (st\<lparr>result_' := SolverError reason\<rparr>))
       \<and> (status = USER_REQUESTED_STOP \<longrightarrow>
            finalize_solution p st status n x m g lambda obj_value = Inl AssertionFailed)
       \<and> (status = UNASSIGNED \<longrightarrow>
            finalize_solution p st status n x m g lambda obj_value =
              (if which_r (result_' st) \<noteq> SOLVER_NO_SOLUTION then Inr st
               else Inl AssertionFailed))
       \<and> (status \<in> {SUCCESS, FEASIBLE_POINT_FOUND, STOP_AT_ACCEPTABLE_POINT, USER_REQUESTED_STOP,
                      UNASSIGNED} \<union> fst ` set MAP_IPOPT_ERRORS)"
proof (intro conjI impI allI)
  show "status \<in> {SUCCESS, FEASIBLE_POINT_FOUND, STOP_AT_ACCEPTABLE_POINT, USER_REQUESTED_STOP,
                      UNASSIGNED} \<union> fst ` set MAP_IPOPT_ERRORS"
    by (rule status_cover)
qed (simp_all only: finalize_success [OF assms] finalize_acceptable [OF assms]
       finalize_error [OF assms] finalize_fatal [OF assms] finalize_unassigned [OF assms])




subsection \<open>The starting point\<close>

text \<open>
  Claim C7.  With its assertions satisfied (sizes, \<open>init_lambda\<close> false, room for the bound
  multipliers when they are asked for): if the problem has no starting point and \<open>init_x\<close> is
  set, \<open>get_starting_point\<close> stores the \<open>SolverError\<close> with the reason
  \<open>Ipopt method needs a starting point.\<close>, returns false, leaves \<open>x\<close> alone and evaluates no
  function; if the problem has a starting point (of size \<open>n\<close>), it is copied over the first
  \<open>n\<close> entries of \<open>x\<close> and the call returns true.
\<close>

theorem get_starting_point_missing:
  assumes "inputSize (objective p) = n" and "constraintsOutputSize p = m"
    and "init_z \<longrightarrow> n \<le> length z_L \<and> n \<le> length z_U"
  shows "(startingPoint p = None \<and> init_x \<longrightarrow>
            (\<exists>st' z_L' z_U'.
               get_starting_point p st n init_x x init_z z_L z_U m False
                 = Inr (st', False, x, z_L', z_U')
               \<and> st' = st\<lparr>result_' := SolverError ''Ipopt method needs a starting point.''\<rparr>
               \<and> evaluations st' = evaluations st))
       \<and> (\<forall>sp. startingPoint p = Some sp \<and> length sp = n \<and> n \<le> length x \<longrightarrow>
            (\<exists>z_L' z_U'.
               get_starting_point p st n init_x x init_z z_L z_U m False
                 = Inr (st, True, sp @ drop n x, z_L', z_U')))"
  using assms by (auto simp: get_starting_point_def Let_def)

theorem get_starting_point_missing_witness:
  "inputSize (objective (dense_problem [] [] [] None)) = 1
   \<and> constraintsOutputSize (dense_problem [] [] [] None) = 0
   \<and> startingPoint (dense_problem [] [] [] None) = None
   \<and> (\<exists>z_L' z_U'.
        get_starting_point (dense_problem [] [] [] None)
          (Tnlp (dense_problem [] [] [] None) (Fin 0)) 1 True [Fin 7] False [] [] 0 False
          = Inr ((Tnlp (dense_problem [] [] [] None) (Fin 0))
                   \<lparr>result_' := SolverError ''Ipopt method needs a starting point.''\<rparr>,
                 False, [Fin 7], z_L', z_U'))
   \<and> startingPoint (dense_problem [] [] [] (Some [Fin 5])) = Some [Fin 5]
   \<and> (\<exists>z_L' z_U'.
        get_starting_point (dense_problem [] [] [] (Some [Fin 5]))
          (Tnlp (dense_problem [] [] [] (Some [Fin 5])) (Fin 0)) 1 True [Fin 7] False [] [] 0 False
          = Inr (Tnlp (dense_problem [] [] [] (Some [Fin 5])) (Fin 0), True, [Fin 5], z_L', z_U'))"
proof -
  let ?st = "\<lambda>sp. Tnlp (dense_problem [] [] [] sp) (Fin 0)"
  have h1: "inputSize (objective (dense_problem [] [] [] sp)) = 1" for sp
    by (simp add: dense_problem_def identity_function_def)
  have h2: "constraintsOutputSize (dense_problem [] [] [] sp) = 0" for sp
    by (simp add: dense_problem_def constraintsOutputSize_def)
  have h3: "False \<longrightarrow> 1 \<le> length ([] :: dbl list) \<and> 1 \<le> length ([] :: dbl list)"
    by simp
  have s1: "startingPoint (dense_problem [] [] [] None) = None"
    and s2: "startingPoint (dense_problem [] [] [] (Some [Fin 5])) = Some [Fin 5]"
    by (simp_all add: dense_problem_def)
  from get_starting_point_missing [OF h1 h2 h3, of None True "?st None" "[Fin 7]"] s1
  have a: "\<exists>z_L' z_U'.
        get_starting_point (dense_problem [] [] [] None) (?st None) 1 True [Fin 7] False [] [] 0 False
          = Inr ((?st None)\<lparr>result_' := SolverError ''Ipopt method needs a starting point.''\<rparr>,
                 False, [Fin 7], z_L', z_U')"
    by blast
  from get_starting_point_missing [OF h1 h2 h3, of "Some [Fin 5]" True "?st (Some [Fin 5])" "[Fin 7]"] s2
  have b: "\<exists>z_L' z_U'.
        get_starting_point (dense_problem [] [] [] (Some [Fin 5])) (?st (Some [Fin 5])) 1 True
          [Fin 7] False [] [] 0 False
          = Inr (?st (Some [Fin 5]), True, [Fin 5], z_L', z_U')"
    by fastforce
  from h1 h2 s1 s2 a b show ?thesis by (intro conjI)
qed


subsection \<open>Scaling\<close>

text \<open>
  Claim C8, evaluated on a problem with one constraint of two outputs whose scales are 2 and 3.
  \<open>get_nlp_info\<close> reports \<open>m = 2\<close> and \<open>get_bounds_info\<close> flattens the two intervals of the
  constraint; the flattened scales are \<open>[2, 3]\<close>.  \<open>get_scaling_parameters\<close> writes both
  scales of the constraint to \<open>g_scaling[0]\<close>, which ends as 3, and for \<open>i = 1\<close> reads
  \<open>scalesVector ()[1]\<close>, which does not exist.
\<close>

theorem get_scaling_parameters_two_outputs:
  "get_nlp_info two_output_problem = (1, 2, 2, 1)
   \<and> get_bounds_info two_output_problem 1 2 = Inr ([MInf], [PInf], [MInf, MInf], [PInf, PInf])
   \<and> concat (scalesVector two_output_problem) = [Fin 2, Fin 3]
   \<and> scaling_outer (scalesVector two_output_problem) 0 1 [Fin 0, Fin 0] = Inr [Fin 3, Fin 0]
   \<and> get_scaling_parameters two_output_problem 1 [Fin 0] 2 [Fin 0, Fin 0] = Inl OutOfRange"
  by (simp add: two_output_problem_def dense_problem_def constant_function_def
      identity_function_def get_nlp_info_def get_bounds_info_def constraintsOutputSize_def
      get_scaling_parameters_def)


subsection \<open>The assertions of the dense callbacks\<close>

lemma sum_list_eq_length:
  fixes f :: "'a \<Rightarrow> nat"
  assumes "\<forall>a\<in>set xs. 0 < f a"
  shows "sum_list (map f xs) = length xs \<longleftrightarrow> (\<forall>a\<in>set xs. f a = 1)"
proof -
  have le: "length ys \<le> sum_list (map f ys)" if "\<forall>a\<in>set ys. 0 < f a" for ys
    using that by (induction ys) (auto simp: Suc_le_eq add_pos_nonneg intro: Suc_leI)
  show ?thesis
    using assms
  proof (induction xs)
    case Nil
    then show ?case by simp
  next
    case (Cons a xs)
    then have pos: "0 < f a" and rest: "\<forall>a\<in>set xs. 0 < f a" by auto
    from le [OF rest] have l: "length xs \<le> sum_list (map f xs)" .
    from Cons.IH [OF rest] pos l show ?case by auto
  qed
qed

lemma block_assign_error: "block_assign M idx nr n B = Inl e \<Longrightarrow> e = EigenAssertion"
  by (auto simp: block_assign_def split: if_splits)

lemma eval_g_loop_error: "eval_g_loop x n cs k idx M evs = Inl e \<Longrightarrow> e = EigenAssertion"
  by (induction cs arbitrary: k idx M evs) (auto split: sum.splits dest: block_assign_error)

lemma eval_jac_g_loop_error: "eval_jac_g_loop x n cs k idx M evs = Inl e \<Longrightarrow> e = EigenAssertion"
  by (induction cs arbitrary: k idx M evs) (auto split: sum.splits dest: block_assign_error)

lemma eval_g_asserts:
  "eval_g p st n x new_x m g_len = Inl AssertionFailed
     \<longleftrightarrow> \<not> (inputSize (objective p) = n \<and> length (constraints p) = m)"
  by (auto simp: eval_g_def map_assign_def split: sum.splits if_splits prod.splits
      dest: eval_g_loop_error)

lemma eval_jac_g_asserts:
  "eval_jac_g p st n x new_x m nele_jac values_given = Inl AssertionFailed
     \<longleftrightarrow> \<not> (inputSize (objective p) = n \<and> length (constraints p) = m)"
  by (auto simp: eval_jac_g_def map_assign_def split: sum.splits if_splits prod.splits
      dest: eval_jac_g_loop_error)

text \<open>
  Claim C9, as amended.  \<open>eval_g\<close> and \<open>eval_jac_g\<close> fail a C assertion exactly when \<open>n\<close> is
  not the input size or \<open>m\<close> is not the number of constraint functions, while \<open>get_nlp_info\<close>
  reports as \<open>m\<close> the sum of the output sizes.  For a problem all of whose constraints have at
  least one output, the assertions pass on the reported \<open>n\<close> and \<open>m\<close> exactly when every
  constraint has output size 1.
\<close>

theorem dense_assertions_on_reported_m:
  assumes "\<forall>c\<in>set (constraints p). 0 < outputSize (g_of c)"
  shows "(eval_g p st n x new_x m g_len = Inl AssertionFailed
            \<longleftrightarrow> \<not> (inputSize (objective p) = n \<and> length (constraints p) = m))
       \<and> (eval_jac_g p st n x new_x m nele_jac values_given = Inl AssertionFailed
            \<longleftrightarrow> \<not> (inputSize (objective p) = n \<and> length (constraints p) = m))
       \<and> fst (get_nlp_info p) = inputSize (objective p)
       \<and> fst (snd (get_nlp_info p)) = sum_list (map (\<lambda>c. outputSize (g_of c)) (constraints p))
       \<and> ((eval_g p st (fst (get_nlp_info p)) x new_x (fst (snd (get_nlp_info p))) g_len
               \<noteq> Inl AssertionFailed
            \<and> eval_jac_g p st (fst (get_nlp_info p)) x new_x (fst (snd (get_nlp_info p)))
                 nele_jac values_given \<noteq> Inl AssertionFailed)
           \<longleftrightarrow> (\<forall>c\<in>set (constraints p). outputSize (g_of c) = 1))"
proof -
  have n: "fst (get_nlp_info p) = inputSize (objective p)"
    by (simp add: get_nlp_info_def Let_def)
  have m: "fst (snd (get_nlp_info p)) = sum_list (map (\<lambda>c. outputSize (g_of c)) (constraints p))"
    by (simp add: get_nlp_info_def Let_def constraintsOutputSize_sum)
  have iff: "length (constraints p) = sum_list (map (\<lambda>c. outputSize (g_of c)) (constraints p))
               \<longleftrightarrow> (\<forall>c\<in>set (constraints p). outputSize (g_of c) = 1)"
    using sum_list_eq_length [OF assms] by auto
  show ?thesis
    unfolding eval_g_asserts eval_jac_g_asserts n m using iff by simp
qed

theorem dense_assertions_on_reported_m_witness:
  "list_all (\<lambda>c. 0 < outputSize (g_of c)) (constraints two_output_problem)
   \<and> get_nlp_info two_output_problem = (1, 2, 2, 1)
   \<and> eval_g two_output_problem (Tnlp two_output_problem (Fin 0)) 1 [Fin 0] True 2 2
        = Inl AssertionFailed
   \<and> eval_jac_g two_output_problem (Tnlp two_output_problem (Fin 0)) 1 [Fin 0] True 2 2 True
        = Inl AssertionFailed"
proof -
  let ?st = "Tnlp two_output_problem (Fin 0)"
  have h: "\<forall>c\<in>set (constraints two_output_problem). 0 < outputSize (g_of c)"
    by (simp add: two_output_problem_def dense_problem_def constant_function_def)
  have i: "get_nlp_info two_output_problem = (1, 2, 2, 1)"
    by (simp add: two_output_problem_def dense_problem_def constant_function_def
        identity_function_def get_nlp_info_def constraintsOutputSize_def)
  have l: "length (constraints two_output_problem) = 1"
    by (simp add: two_output_problem_def dense_problem_def)
  from dense_assertions_on_reported_m [OF h, of ?st 1 "[Fin 0]" True 2 2 2 True] l
  have "eval_g two_output_problem ?st 1 [Fin 0] True 2 2 = Inl AssertionFailed"
    and "eval_jac_g two_output_problem ?st 1 [Fin 0] True 2 2 True = Inl AssertionFailed"
    by simp_all
  with h i show ?thesis by (simp add: list_all_iff)
qed

text \<open>
  Without the side condition the equivalence fails: with two constraints of output sizes 0 and
  2 the reported \<open>m\<close> is 2, the number of constraints, so the assertions pass.
\<close>

theorem dense_assertions_zero_output_counterexample:
  "\<not> ((eval_g zero_two_problem (Tnlp zero_two_problem (Fin 0))
          (fst (get_nlp_info zero_two_problem)) [Fin 0] False
          (fst (snd (get_nlp_info zero_two_problem))) 2 \<noteq> Inl AssertionFailed
        \<and> eval_jac_g zero_two_problem (Tnlp zero_two_problem (Fin 0))
          (fst (get_nlp_info zero_two_problem)) [Fin 0] False
          (fst (snd (get_nlp_info zero_two_problem))) 2 False \<noteq> Inl AssertionFailed)
       \<longleftrightarrow> (\<forall>c\<in>set (constraints zero_two_problem). outputSize (g_of c) = 1))"
  by (simp add: zero_two_problem_def dense_problem_def constant_function_def
      identity_function_def get_nlp_info_def constraintsOutputSize_def eval_g_def eval_jac_g_def
      map_assign_def Tnlp_def eval_nat_numeral)


subsection \<open>The evaluation cache\<close>

lemma block_assign_Inr:
  assumes "block_assign M idx nr n B = Inr M'"
  shows "idx + nr \<le> length M" and "length B = nr" and "list_all (\<lambda>r. length r = n) B"
    and "M' = take idx M @ map2 (\<lambda>b r. b @ drop n r) B (take nr (drop idx M)) @ drop (idx + nr) M"
  using assms by (auto simp: block_assign_def split: if_splits)

lemma block_assign_length:
  assumes "block_assign M idx nr n B = Inr M'"
  shows "length M' = length M"
  using block_assign_Inr [OF assms] by (auto simp: min_def)

lemma block_assign_take:
  assumes "block_assign M idx nr n B = Inr M'"
  shows "take idx M' = take idx M"
  using block_assign_Inr [OF assms] by simp

lemma block_assign_drop:
  assumes "block_assign M idx nr n B = Inr M'"
  shows "drop (idx + nr) M' = drop (idx + nr) M"
proof -
  note b = block_assign_Inr [OF assms]
  have l: "length (map2 (\<lambda>b r. b @ drop n r) B (take nr (drop idx M))) = nr"
    using b(1,2) by simp
  have "drop (idx + nr) M' = drop nr (map2 (\<lambda>b r. b @ drop n r) B (take nr (drop idx M)) @ drop (idx + nr) M)"
    using b(1) by (subst b(4)) (simp add: drop_append)
  also have "\<dots> = drop (idx + nr) M"
    using l by simp
  finally show ?thesis .
qed

lemma map2_take_left:
  "length B = length R \<Longrightarrow> list_all (\<lambda>r. length r = n) B \<Longrightarrow>
     map (take n) (map2 (\<lambda>b r. b @ drop n r) B R) = B"
  by (induction B R rule: list_induct2) auto

lemma block_assign_block:
  assumes "block_assign M idx nr n B = Inr M'"
  shows "map (take n) (take nr (drop idx M')) = B"
proof -
  note b = block_assign_Inr [OF assms]
  have l: "length (map2 (\<lambda>b r. b @ drop n r) B (take nr (drop idx M))) = nr"
    using b(1,2) by simp
  have "drop idx M' = map2 (\<lambda>b r. b @ drop n r) B (take nr (drop idx M)) @ drop (idx + nr) M"
    using b(1) by (subst b(4)) (simp add: drop_append)
  then have "take nr (drop idx M') = map2 (\<lambda>b r. b @ drop n r) B (take nr (drop idx M))"
    using l by simp
  moreover have "length B = length (take nr (drop idx M))"
    using b(1,2) by simp
  ultimately show ?thesis
    using map2_take_left [OF _ b(3)] by simp
qed

lemma eval_g_loop_Inr:
  assumes "eval_g_loop x n cs k idx M evs = Inr (M', evs')" and "idx \<le> length M"
  shows "length M' = length M"
    and "evs' = evs @ map (\<lambda>j. EvalConstraint j x) [k..<k + length cs]"
    and "idx + sum_list (map (\<lambda>c. outputSize (g_of c)) cs) \<le> length M"
    and "take idx M' = take idx M"
    and "map (take n) (take (sum_list (map (\<lambda>c. outputSize (g_of c)) cs)) (drop idx M'))
           = concat (map (\<lambda>c. as_column (call (g_of c) x)) cs)"
  using assms
proof (induction cs arbitrary: k idx M evs)
  case Nil
  {
    case 1 then show ?case by simp
  next
    case 2 then show ?case by simp
  next
    case 3 then show ?case by simp
  next
    case 4 then show ?case by simp
  next
    case 5 then show ?case by simp
  }
next
  case (Cons c cs)
  let ?os = "outputSize (g_of c)"
  let ?B = "as_column (call (g_of c) x)"
  let ?t = "sum_list (map (\<lambda>c. outputSize (g_of c)) cs)"
  {
    fix k idx M evs
    assume a: "eval_g_loop x n (c # cs) k idx M evs = Inr (M', evs')"
    assume i: "idx \<le> length M"
    from a obtain M1 where b: "block_assign M idx ?os n ?B = Inr M1"
      and r: "eval_g_loop x n cs (Suc k) (idx + ?os) M1 (evs @ [EvalConstraint k x]) = Inr (M', evs')"
      by (auto split: sum.splits)
    have i1: "idx + ?os \<le> length M1"
      using block_assign_Inr(1) [OF b] block_assign_length [OF b] by simp
    note ih = Cons.IH [OF r i1]
    have l: "length M' = length M"
      using ih(1) block_assign_length [OF b] by simp
    have e: "evs' = evs @ map (\<lambda>j. EvalConstraint j x) [k..<k + length (c # cs)]"
    proof -
      have A: "[k..<Suc (k + length cs)] = k # [Suc k..<Suc (k + length cs)]"
        by (rule upt_conv_Cons) simp
      have B: "k + length (c # cs) = Suc (k + length cs)" "Suc k + length cs = Suc (k + length cs)"
        by simp_all
      from ih(2) show ?thesis
        unfolding B A by simp
    qed
    have s: "idx + (?os + ?t) \<le> length M"
      using ih(3) block_assign_length [OF b] by simp
    have t1: "take (idx + ?os) M' = take (idx + ?os) M1"
      using ih(4) .
    have t: "take idx M' = take idx M"
    proof -
      have "take idx M' = take idx (take (idx + ?os) M')" by (simp add: min_def)
      also have "\<dots> = take idx (take (idx + ?os) M1)" using t1 by simp
      also have "\<dots> = take idx M1" by (simp add: min_def)
      also have "\<dots> = take idx M" by (rule block_assign_take [OF b])
      finally show ?thesis .
    qed
    have first: "take ?os (drop idx M') = take ?os (drop idx M1)"
    proof -
      have "take ?os (drop idx M') = drop idx (take (idx + ?os) M')"
        by (simp add: drop_take)
      also have "\<dots> = drop idx (take (idx + ?os) M1)" using t1 by simp
      also have "\<dots> = take ?os (drop idx M1)" by (simp add: drop_take)
      finally show ?thesis .
    qed
    have f: "map (take n) (take (?os + ?t) (drop idx M')) = ?B @ concat (map (\<lambda>c. as_column (call (g_of c) x)) cs)"
    proof -
      have "take (?os + ?t) (drop idx M') = take ?os (drop idx M') @ take ?t (drop (idx + ?os) M')"
        by (simp add: take_add add.commute)
      then show ?thesis
        using first block_assign_block [OF b] ih(5) by simp
    qed
    note l e s t f
  } note step = this
  {
    case 1 from step(1) [OF this] show ?case .
  next
    case 2 from step(2) [OF this] show ?case .
  next
    case 3 from step(3) [OF this] show ?case by simp
  next
    case 4 from step(4) [OF this] show ?case .
  next
    case 5 from step(5) [OF this] show ?case by simp
  }
qed

lemma eval_jac_g_loop_Inr:
  assumes "eval_jac_g_loop x n cs k idx M evs = Inr (M', evs')" and "idx \<le> length M"
  shows "length M' = length M"
    and "evs' = evs @ map (\<lambda>j. EvalConstraintJacobian j x) [k..<k + length cs]"
    and "idx + sum_list (map (\<lambda>c. outputSize (g_of c)) cs) \<le> length M"
    and "take idx M' = take idx M"
    and "map (take n) (take (sum_list (map (\<lambda>c. outputSize (g_of c)) cs)) (drop idx M'))
           = concat (map (\<lambda>c. jacobian (g_of c) x) cs)"
  using assms
proof (induction cs arbitrary: k idx M evs)
  case Nil
  {
    case 1 then show ?case by simp
  next
    case 2 then show ?case by simp
  next
    case 3 then show ?case by simp
  next
    case 4 then show ?case by simp
  next
    case 5 then show ?case by simp
  }
next
  case (Cons c cs)
  let ?os = "outputSize (g_of c)"
  let ?B = "jacobian (g_of c) x"
  let ?t = "sum_list (map (\<lambda>c. outputSize (g_of c)) cs)"
  {
    fix k idx M evs
    assume a: "eval_jac_g_loop x n (c # cs) k idx M evs = Inr (M', evs')"
    assume i: "idx \<le> length M"
    from a obtain M1 where b: "block_assign M idx ?os n ?B = Inr M1"
      and r: "eval_jac_g_loop x n cs (Suc k) (idx + ?os) M1 (evs @ [EvalConstraintJacobian k x]) = Inr (M', evs')"
      by (auto split: sum.splits)
    have i1: "idx + ?os \<le> length M1"
      using block_assign_Inr(1) [OF b] block_assign_length [OF b] by simp
    note ih = Cons.IH [OF r i1]
    have l: "length M' = length M"
      using ih(1) block_assign_length [OF b] by simp
    have e: "evs' = evs @ map (\<lambda>j. EvalConstraintJacobian j x) [k..<k + length (c # cs)]"
    proof -
      have A: "[k..<Suc (k + length cs)] = k # [Suc k..<Suc (k + length cs)]"
        by (rule upt_conv_Cons) simp
      have B: "k + length (c # cs) = Suc (k + length cs)" "Suc k + length cs = Suc (k + length cs)"
        by simp_all
      from ih(2) show ?thesis
        unfolding B A by simp
    qed
    have s: "idx + (?os + ?t) \<le> length M"
      using ih(3) block_assign_length [OF b] by simp
    have t1: "take (idx + ?os) M' = take (idx + ?os) M1"
      using ih(4) .
    have t: "take idx M' = take idx M"
    proof -
      have "take idx M' = take idx (take (idx + ?os) M')" by (simp add: min_def)
      also have "\<dots> = take idx (take (idx + ?os) M1)" using t1 by simp
      also have "\<dots> = take idx M1" by (simp add: min_def)
      also have "\<dots> = take idx M" by (rule block_assign_take [OF b])
      finally show ?thesis .
    qed
    have first: "take ?os (drop idx M') = take ?os (drop idx M1)"
    proof -
      have "take ?os (drop idx M') = drop idx (take (idx + ?os) M')"
        by (simp add: drop_take)
      also have "\<dots> = drop idx (take (idx + ?os) M1)" using t1 by simp
      also have "\<dots> = take ?os (drop idx M1)" by (simp add: drop_take)
      finally show ?thesis .
    qed
    have f: "map (take n) (take (?os + ?t) (drop idx M')) = ?B @ concat (map (\<lambda>c. jacobian (g_of c) x) cs)"
    proof -
      have "take (?os + ?t) (drop idx M') = take ?os (drop idx M') @ take ?t (drop (idx + ?os) M')"
        by (simp add: take_add add.commute)
      then show ?thesis
        using first block_assign_block [OF b] ih(5) by simp
    qed
    note l e s t f
  } note step = this
  {
    case 1 from step(1) [OF this] show ?case .
  next
    case 2 from step(2) [OF this] show ?case .
  next
    case 3 from step(3) [OF this] show ?case by simp
  next
    case 4 from step(4) [OF this] show ?case .
  next
    case 5 from step(5) [OF this] show ?case by simp
  }
qed

lemma map_assign_Inr:
  "map_assign m n M = Inr G \<Longrightarrow> G = M \<and> length M = m \<and> list_all (\<lambda>r. length r = n) M"
  by (auto simp: map_assign_def split: if_splits)

lemma map_take_id: "list_all (\<lambda>r. length r = n) M \<Longrightarrow> map (take n) M = M"
  by (induction M) auto

lemma eval_f_same_point:
  assumes "inputSize (objective p) = n" and "call (objective p) (take n x) \<noteq> []"
  shows "\<exists>st1 v. eval_f p st n x True = Inr (st1, v) \<and> eval_f p st1 n x False = Inr (st1, v)
               \<and> objectiveEvaluations st1 = objectiveEvaluations st + 1"
  using assms
  by (cases "call (objective p) (take n x)") (auto simp: eval_f_def objectiveEvaluations_def)

lemma eval_f_two_points:
  assumes "inputSize (objective p) = n" and "call (objective p) (take n x) \<noteq> []"
    and "call (objective p) (take n y) \<noteq> []"
  shows "\<exists>st1 v1 st2 v2. eval_f p st n x True = Inr (st1, v1) \<and> eval_f p st1 n y True = Inr (st2, v2)
               \<and> objectiveEvaluations st2 = objectiveEvaluations st + 2"
  using assms
  by (cases "call (objective p) (take n x)"; cases "call (objective p) (take n y)")
     (auto simp: eval_f_def objectiveEvaluations_def)

lemma eval_f_cached:
  assumes "eval_f p st n x False = Inr (st', v)"
  shows "st' = st \<and> cost_' st \<noteq> [] \<and> v = hd (cost_' st)"
  using assms by (auto simp: eval_f_def Let_def split: if_splits list.splits)

lemma eval_f_fresh:
  assumes "eval_f p st n x True = Inr (st', v)"
  shows "cost_' st' = call (objective p) (take n x) \<and> cost_' st' \<noteq> [] \<and> v = hd (cost_' st')
         \<and> evaluations st' = evaluations st @ [EvalCost (take n x)]"
  using assms by (auto simp: eval_f_def Let_def split: if_splits list.splits)

lemma eval_grad_f_cached:
  assumes "eval_grad_f p st n x False = Inr (st', v)"
  shows "st' = st \<and> v = costGradient_' st"
  using assms by (auto simp: eval_grad_f_def Let_def split: if_splits)

lemma eval_grad_f_fresh:
  assumes "eval_grad_f p st n x True = Inr (st', v)"
  shows "costGradient_' st' = gradient (objective p) (take n x) 0 \<and> v = costGradient_' st'
         \<and> evaluations st' = evaluations st @ [EvalCostGradient (take n x)]"
  using assms by (auto simp: eval_grad_f_def Let_def split: if_splits)

lemma eval_g_cached:
  assumes "eval_g p st n x False m g_len = Inr (st', G)"
  shows "st' = st \<and> G = constraints_' st"
  using assms by (auto simp: eval_g_def split: if_splits sum.splits dest: map_assign_Inr)

lemma eval_jac_g_cached:
  assumes "eval_jac_g p st n x False m nele_jac True = Inr (st', out)"
  shows "st' = st \<and> out = Values (jacobian_' st)"
  using assms by (auto simp: eval_jac_g_def split: if_splits sum.splits dest: map_assign_Inr)

lemma eval_g_fresh:
  assumes "eval_g p st n x True m g_len = Inr (st', G)" and "m = constraintsOutputSize p"
  shows "G = constraints_' st'
         \<and> G = concat (map (\<lambda>c. as_column (call (g_of c) (take n x))) (constraints p))
         \<and> evaluations st' = evaluations st
              @ map (\<lambda>k. EvalConstraint k (take n x)) [0..<length (constraints p)]"
proof -
  from assms(1) obtain M evs where
    l: "eval_g_loop (take n x) n (constraints p) 0 0 (constraints_' st) (evaluations st) = Inr (M, evs)"
    and ma: "map_assign m n M = Inr G"
    and st': "st' = st\<lparr>constraints_' := M, evaluations := evs\<rparr>"
    by (auto simp: eval_g_def split: if_splits sum.splits)
  note le = eval_g_loop_Inr [OF l]
  from map_assign_Inr [OF ma] have G: "G = M" and len: "length M = m"
    and rows: "list_all (\<lambda>r. length r = n) M" by auto
  have "map (take n) (take m (drop 0 M))
          = concat (map (\<lambda>c. as_column (call (g_of c) (take n x))) (constraints p))"
    using le(5) assms(2) by (simp add: constraintsOutputSize_sum)
  then have "M = concat (map (\<lambda>c. as_column (call (g_of c) (take n x))) (constraints p))"
    using len map_take_id [OF rows] by simp
  with G st' le(2) show ?thesis by simp
qed

lemma eval_jac_g_fresh:
  assumes "eval_jac_g p st n x True m nele_jac True = Inr (st', out)"
    and "m = constraintsOutputSize p"
  shows "out = Values (jacobian_' st')
         \<and> jacobian_' st' = concat (map (\<lambda>c. jacobian (g_of c) (take n x)) (constraints p))
         \<and> evaluations st' = evaluations st
              @ map (\<lambda>k. EvalConstraintJacobian k (take n x)) [0..<length (constraints p)]"
proof -
  from assms(1) obtain M evs V where
    l: "eval_jac_g_loop (take n x) n (constraints p) 0 0 (jacobian_' st) (evaluations st) = Inr (M, evs)"
    and ma: "map_assign m n M = Inr V"
    and st': "st' = st\<lparr>jacobian_' := M, evaluations := evs\<rparr>"
    and out: "out = Values V"
    by (auto simp: eval_jac_g_def split: if_splits sum.splits)
  note le = eval_jac_g_loop_Inr [OF l]
  from map_assign_Inr [OF ma] have V: "V = M" and len: "length M = m"
    and rows: "list_all (\<lambda>r. length r = n) M" by auto
  have "map (take n) (take m (drop 0 M))
          = concat (map (\<lambda>c. jacobian (g_of c) (take n x)) (constraints p))"
    using le(5) assms(2) by (simp add: constraintsOutputSize_sum)
  then have "M = concat (map (\<lambda>c. jacobian (g_of c) (take n x)) (constraints p))"
    using len map_take_id [OF rows] by simp
  with V st' out le(2) show ?thesis by simp
qed

text \<open>
  What holds of the cache.  \<open>eval_f\<close> and \<open>eval_grad_f\<close> return whenever the assertion on \<open>n\<close>
  passes and the objective gives a value, respectively a gradient of size \<open>n\<close>: with the flag
  set they evaluate once, store the value and return it, and with the flag cleared they return
  what is stored and leave the state alone.
\<close>

lemma eval_f_refresh:
  assumes "inputSize (objective p) = n" and "call (objective p) (take n x) = v # rest"
  shows "eval_f p st n x True
           = Inr (st\<lparr>cost_' := v # rest, evaluations := evaluations st @ [EvalCost (take n x)]\<rparr>, v)"
    and "eval_f p (st\<lparr>cost_' := v # rest, evaluations := evaluations st @ [EvalCost (take n x)]\<rparr>)
           n y False
           = Inr (st\<lparr>cost_' := v # rest, evaluations := evaluations st @ [EvalCost (take n x)]\<rparr>, v)"
  using assms by (simp_all add: eval_f_def)

lemma eval_grad_f_refresh:
  assumes "inputSize (objective p) = n" and "length (gradient (objective p) (take n x) 0) = n"
  shows "eval_grad_f p st n x True
           = Inr (st\<lparr>costGradient_' := gradient (objective p) (take n x) 0,
                     evaluations := evaluations st @ [EvalCostGradient (take n x)]\<rparr>,
                  gradient (objective p) (take n x) 0)"
    and "eval_grad_f p (st\<lparr>costGradient_' := gradient (objective p) (take n x) 0,
                           evaluations := evaluations st @ [EvalCostGradient (take n x)]\<rparr>)
           n y False
           = Inr (st\<lparr>costGradient_' := gradient (objective p) (take n x) 0,
                     evaluations := evaluations st @ [EvalCostGradient (take n x)]\<rparr>,
                  gradient (objective p) (take n x) 0)"
  using assms by (simp_all add: eval_grad_f_def)

lemma eval_grad_f_same_point:
  assumes "inputSize (objective p) = n" and "length (costGradient_' st) = n"
  shows "eval_grad_f p st n x False = Inr (st, costGradient_' st)"
  using assms by (simp add: eval_grad_f_def)

text \<open>
  \<open>eval_g\<close> keeps the constraint values in a buffer with \<open>n\<close> columns: it assigns the value of
  each constraint, a vector, to a block of \<open>n\<close> columns, and copies the buffer to the engine's
  array \<open>g\<close> as a matrix with \<open>n\<close> columns.  With one variable both are what they should be.
  With more variables the assignment fails in Eigen as soon as a constraint has an output.
\<close>

lemma eval_g_loop_columns:
  assumes "n \<noteq> 1" and "0 < outputSize (g_of c)"
    and "length (call (g_of c) x) = outputSize (g_of c)"
  shows "eval_g_loop x n (c # cs) k idx M evs = Inl EigenAssertion"
proof -
  from assms(2,3) obtain a v where v: "call (g_of c) x = a # v"
    by (cases "call (g_of c) x") auto
  from assms(1) have "\<not> list_all (\<lambda>r. length r = n) (as_column (call (g_of c) x))"
    by (simp add: v as_column_def)
  then show ?thesis
    by (simp add: block_assign_def)
qed

lemma eval_g_columns:
  assumes "n \<noteq> 1" and "constraints p = c # cs" and "0 < outputSize (g_of c)"
    and "length (call (g_of c) (take n x)) = outputSize (g_of c)"
    and "inputSize (objective p) = n" and "length (constraints p) = m"
  shows "eval_g p st n x True m g_len = Inl EigenAssertion"
  using assms(5,6) eval_g_loop_columns [OF assms(1,3,4)]
  by (simp add: eval_g_def assms(2))

text \<open>
  Claim C5.  A problem with two variables and one constraint with one output, for which
  \<open>get_nlp_info\<close> reports \<open>n = 2\<close> and \<open>m = 1\<close>; the adapter as constructed, the engine's array
  \<open>g\<close> with its \<open>m = 1\<close> entries.  \<open>eval_g\<close> with the new-point flag set fails the Eigen assertion
  on the first constraint (a vector assigned to a block of two columns): the buffer is not
  refreshed and nothing is returned.  With the flag cleared it copies the buffer, one row of two
  columns, to the array of one entry, and writes past its end.  With an array of two entries
  that call returns the two uninitialised coefficients of the buffer.
\<close>

theorem eval_g_two_variables:
  "get_nlp_info two_variable_problem = (2, 1, 2, 3)
   \<and> eval_g two_variable_problem (Tnlp two_variable_problem u) 2 [Fin 4, Fin 5] True 1 1
        = Inl EigenAssertion
   \<and> eval_g two_variable_problem (Tnlp two_variable_problem u) 2 [Fin 4, Fin 5] False 1 1
        = Inl BufferOverflow
   \<and> eval_g two_variable_problem (Tnlp two_variable_problem u) 2 [Fin 4, Fin 5] False 1 2
        = Inr (Tnlp two_variable_problem u, [[u, u]])"
proof -
  have "get_nlp_info two_variable_problem = (2, 1, 2, 3)"
    by (simp add: get_nlp_info_def two_variable_problem_def first_component_function_def
        constraintsOutputSize_def)
  moreover have "eval_g two_variable_problem (Tnlp two_variable_problem u) 2 [Fin 4, Fin 5] True 1 1
        = Inl EigenAssertion"
    by (simp add: eval_g_def two_variable_problem_def first_component_function_def
        constraintsOutputSize_def Tnlp_def block_assign_def as_column_def eval_nat_numeral)
  moreover have "eval_g two_variable_problem (Tnlp two_variable_problem u) 2 [Fin 4, Fin 5] False 1 1
        = Inl BufferOverflow"
    by (simp add: eval_g_def two_variable_problem_def first_component_function_def
        constraintsOutputSize_def Tnlp_def map_assign_def eval_nat_numeral)
  moreover have "eval_g two_variable_problem (Tnlp two_variable_problem u) 2 [Fin 4, Fin 5] False 1 2
        = Inr (Tnlp two_variable_problem u, [[u, u]])"
    by (simp add: eval_g_def two_variable_problem_def first_component_function_def
        constraintsOutputSize_def Tnlp_def map_assign_def eval_nat_numeral)
  ultimately show ?thesis by (intro conjI)
qed

text \<open>On the same problem \<open>eval_f\<close> and \<open>eval_grad_f\<close> cache as they should.\<close>

lemma eval_f_two_variables:
  "eval_f two_variable_problem (Tnlp two_variable_problem u) 2 [Fin 4, Fin 5] True
     = Inr ((Tnlp two_variable_problem u)
              \<lparr>cost_' := [Fin 4], evaluations := [EvalCost [Fin 4, Fin 5]]\<rparr>, Fin 4)
   \<and> eval_f two_variable_problem
       ((Tnlp two_variable_problem u)
          \<lparr>cost_' := [Fin 4], evaluations := [EvalCost [Fin 4, Fin 5]]\<rparr>) 2 [Fin 4, Fin 5] False
     = Inr ((Tnlp two_variable_problem u)
              \<lparr>cost_' := [Fin 4], evaluations := [EvalCost [Fin 4, Fin 5]]\<rparr>, Fin 4)
   \<and> eval_grad_f two_variable_problem (Tnlp two_variable_problem u) 2 [Fin 4, Fin 5] True
     = Inr ((Tnlp two_variable_problem u)
              \<lparr>costGradient_' := [Fin 1, Fin 0],
               evaluations := [EvalCostGradient [Fin 4, Fin 5]]\<rparr>, [Fin 1, Fin 0])
   \<and> eval_grad_f two_variable_problem (Tnlp two_variable_problem u) 2 [Fin 4, Fin 5] False
     = Inr (Tnlp two_variable_problem u, [u, u])"
  by (simp add: eval_f_def eval_grad_f_def two_variable_problem_def first_component_function_def
      constraintsOutputSize_def Tnlp_def eval_nat_numeral)

text \<open>With one variable and one constraint with one output, \<open>eval_g\<close> caches as well.\<close>

lemma eval_g_one_variable:
  "eval_g scalar_problem (Tnlp scalar_problem u) 1 [Fin 4] True 1 1
     = Inr ((Tnlp scalar_problem u)
              \<lparr>constraints_' := [[Fin 4]], evaluations := [EvalConstraint 0 [Fin 4]]\<rparr>, [[Fin 4]])
   \<and> eval_g scalar_problem
       ((Tnlp scalar_problem u)
          \<lparr>constraints_' := [[Fin 4]], evaluations := [EvalConstraint 0 [Fin 4]]\<rparr>)
       1 [Fin 4] False 1 1
     = Inr ((Tnlp scalar_problem u)
              \<lparr>constraints_' := [[Fin 4]], evaluations := [EvalConstraint 0 [Fin 4]]\<rparr>, [[Fin 4]])"
  by (simp add: eval_g_def scalar_problem_def dense_problem_def identity_function_def
      constraintsOutputSize_def Tnlp_def block_assign_def as_column_def map_assign_def)


section \<open>Properties of the sparse adapter\<close>

subsection \<open>The synthesized evaluation point\<close>

lemma synthesize_loop_Inr:
  assumes "constraintId < length bv" and "\<forall>i\<in>set is. i < length (bv ! constraintId)"
  shows "synthesize_loop bv constraintId is
           = Inr (map (\<lambda>i. synthesize_component (bv ! constraintId ! i)) is)"
  using assms by (induction "is") auto

lemma synthesize_loop_Inr_D:
  assumes "synthesize_loop bv constraintId is = Inr xs" and "is \<noteq> []"
  shows "constraintId < length bv \<and> (\<forall>i\<in>set is. i < length (bv ! constraintId))"
  using assms
proof (induction "is" arbitrary: xs)
  case Nil
  then show ?case by simp
next
  case (Cons i rest)
  from Cons.prems(1) have c: "constraintId < length bv" and l: "i < length (bv ! constraintId)"
    by (auto split: if_splits)
  from Cons.prems(1) c l obtain ys where r: "synthesize_loop bv constraintId rest = Inr ys"
    by (auto split: sum.splits)
  show ?case
  proof (cases "rest = []")
    case True
    with c l show ?thesis by simp
  next
    case False
    from Cons.IH [OF r False] c l show ?thesis by simp
  qed
qed

lemma synthesize_loop_error: "synthesize_loop bv constraintId is = Inl e \<Longrightarrow> e = OutOfRange"
  by (induction "is" arbitrary: e) (auto split: sum.splits if_splits)

lemma synthesize_loop_Inl:
  assumes "\<not> (constraintId < length bv \<and> (\<forall>i\<in>set is. i < length (bv ! constraintId)))"
    and "is \<noteq> []"
  shows "synthesize_loop bv constraintId is = Inl OutOfRange"
proof (cases "synthesize_loop bv constraintId is")
  case (Inl e)
  with synthesize_loop_error [OF Inl] show ?thesis by simp
next
  case (Inr xs)
  from synthesize_loop_Inr_D [OF Inr assms(2)] assms(1) show ?thesis by simp
qed

lemma synthesize_component_cases:
  "synthesize_component b =
     (if fst b = PInf then snd b else if snd b = PInf then fst b
      else dbl_half (dbl_minus (snd b) (fst b)))"
  by (auto simp: synthesize_component_def dbl_neq_def Function_infinity_def)

lemma synthesize_point_starting_point:
  "startingPoint p = Some sp \<Longrightarrow> synthesize_point p n constraintId = Inr sp"
  by (simp add: synthesize_point_def)

lemma synthesize_point_no_starting_point:
  assumes "startingPoint p = None" and "constraintId < length (boundsVector p)"
    and "n \<le> length (boundsVector p ! constraintId)"
  shows "synthesize_point p n constraintId
           = Inr (map (\<lambda>i. synthesize_component (boundsVector p ! constraintId ! i)) [0..<n])"
  using assms by (simp add: synthesize_point_def synthesize_loop_Inr)

text \<open>
  Claim C3.  The source comments its three branches: \<open>if constraint is in an interval,
  evaluate at middle\<close>, and \<open>otherwise use the non-infinite bound\<close>.  Four problems with one
  variable, one constraint and no starting point, which differ in the bounds of the
  constraint.  Between 2 and 4 the synthesized component is 1, half the width of the interval
  (\<open>(hi - lo) / 2\<close>), where the middle is 3.  Between \<open>-infinity\<close> and 5 the first branch is
  taken again, only \<open>+infinity\<close> being tested, and the component is \<open>+infinity\<close> where the
  finite bound is 5.  Between \<open>-infinity\<close> and \<open>+infinity\<close> the second branch gives the lower
  bound \<open>-infinity\<close>.  Between 2 and \<open>+infinity\<close> the component is the finite bound 2, as the
  comment says.
\<close>

theorem synthesize_point_branches:
  "startingPoint bounded_problem = None
   \<and> boundsVector bounded_problem = [[(Fin 2, Fin 4)]]
   \<and> synthesize_point bounded_problem 1 0 = Inr [Fin 1]
   \<and> startingPoint upper_bounded_problem = None
   \<and> boundsVector upper_bounded_problem = [[(MInf, Fin 5)]]
   \<and> synthesize_point upper_bounded_problem 1 0 = Inr [PInf]
   \<and> startingPoint unbounded_problem = None
   \<and> boundsVector unbounded_problem = [[(MInf, PInf)]]
   \<and> synthesize_point unbounded_problem 1 0 = Inr [MInf]
   \<and> startingPoint lower_bounded_problem = None
   \<and> boundsVector lower_bounded_problem = [[(Fin 2, PInf)]]
   \<and> synthesize_point lower_bounded_problem 1 0 = Inr [Fin 2]"
  by (simp add: bounded_problem_def upper_bounded_problem_def unbounded_problem_def
      lower_bounded_problem_def sparse_problem_def synthesize_point_def synthesize_component_def
      dbl_neq_def Function_infinity_def)


lemma synthesize_point_components:
  assumes "startingPoint p = None" and "synthesize_point p n constraintId = Inr x"
  shows "length x = n \<and> (\<forall>i<n. x ! i = synthesize_component (boundsVector p ! constraintId ! i))"
proof (cases "n = 0")
  case True
  with assms show ?thesis by (simp add: synthesize_point_def)
next
  case False
  from assms have l: "synthesize_loop (boundsVector p) constraintId [0..<n] = Inr x"
    by (simp add: synthesize_point_def)
  from False have "[0..<n] \<noteq> []" by simp
  from synthesize_loop_Inr_D [OF l this] synthesize_loop_Inr [of constraintId "boundsVector p" "[0..<n]"] l
  have "x = map (\<lambda>i. synthesize_component (boundsVector p ! constraintId ! i)) [0..<n]"
    by simp
  then show ?thesis by simp
qed

text \<open>
  In the model, where finite arithmetic is exact, the component synthesized from two finite
  bounds is finite, and so is the one synthesized from a finite bound and \<open>+infinity\<close>.
\<close>

lemma synthesize_component_finite_bounds:
  "is_finite lo \<Longrightarrow> is_finite hi \<Longrightarrow> is_finite (synthesize_component (lo, hi))"
  by (cases lo; cases hi) (simp_all add: synthesize_component_cases is_finite_def)

lemma synthesize_component_one_finite_bound:
  "is_finite lo \<Longrightarrow> synthesize_component (lo, PInf) = lo"
  "is_finite hi \<Longrightarrow> synthesize_component (PInf, hi) = hi"
  by (cases lo; simp add: synthesize_component_cases is_finite_def)
     (simp add: synthesize_component_cases)


subsection \<open>Storage order and triplets\<close>

lemma coord_simps [simp]:
  "coord (r, c, v) = (r, c)" "coeff (r, c, v) = v"
  "coord (global_triplet idx t) = (idx + fst (coord t), snd (coord t))"
  "coeff (global_triplet idx t) = coeff t"
  by (simp_all add: coord_def coeff_def global_triplet_def)

lemma before_irrefl: "\<not> before so a a"
  by (simp add: before_def)

lemma before_trans: "before so a b \<Longrightarrow> before so b c \<Longrightarrow> before so a c"
  by (auto simp: before_def)

lemma before_total: "a \<noteq> b \<Longrightarrow> before so a b \<or> before so b a"
  by (cases so; cases a; cases b) (auto simp: before_def outer_of_def inner_of_def)

lemma before_outer: "before so a b \<Longrightarrow> outer_of so a \<le> outer_of so b"
  by (auto simp: before_def)

lemma before_global:
  "before so (idx + fst a, snd a) (idx + fst b, snd b) \<longleftrightarrow> before so a b"
  by (cases so) (auto simp: before_def outer_of_def inner_of_def)

lemma sorted_wrt_before_unique:
  assumes "sorted_wrt (before so) xs" and "sorted_wrt (before so) ys" and "set xs = set ys"
  shows "xs = ys"
  using assms
proof (induction xs arbitrary: ys)
  case Nil
  then show ?case by simp
next
  case (Cons x xs)
  from Cons.prems(3) obtain y ys' where ys: "ys = y # ys'" by (cases ys) auto
  from Cons.prems(1) have x_min: "\<forall>a\<in>set xs. before so x a" and sx: "sorted_wrt (before so) xs"
    by simp_all
  from Cons.prems(2) ys have y_min: "\<forall>a\<in>set ys'. before so y a" and sy: "sorted_wrt (before so) ys'"
    by simp_all
  have xy: "x = y"
  proof (rule ccontr)
    assume ne: "x \<noteq> y"
    from Cons.prems(3) ys ne have "x \<in> set ys'" and "y \<in> set xs" by auto
    with x_min y_min have "before so x y" and "before so y x" by auto
    then show False using before_trans before_irrefl by blast
  qed
  have nx: "x \<notin> set xs" using x_min before_irrefl by blast
  have ny: "y \<notin> set ys'" using y_min before_irrefl by blast
  from Cons.prems(3) ys xy nx ny have "set xs = set ys'" by auto
  from Cons.IH [OF sx sy this] xy ys show ?case by simp
qed

lemma sorted_wrt_concat_map:
  "sorted_wrt R (concat (map f xs)) \<longleftrightarrow>
     (\<forall>x\<in>set xs. sorted_wrt R (f x))
     \<and> sorted_wrt (\<lambda>x y. \<forall>a\<in>set (f x). \<forall>b\<in>set (f y). R a b) xs"
  by (induction xs) (auto simp: sorted_wrt_append)

lemma filter_less_Suc:
  fixes f :: "'a \<Rightarrow> nat"
  assumes "sorted (map f xs)"
  shows "filter (\<lambda>x. f x < N) xs @ filter (\<lambda>x. f x = N) xs = filter (\<lambda>x. f x < Suc N) xs"
  using assms
proof (induction xs)
  case Nil
  then show ?case by simp
next
  case (Cons x xs)
  then have ih: "filter (\<lambda>x. f x < N) xs @ filter (\<lambda>x. f x = N) xs = filter (\<lambda>x. f x < Suc N) xs"
    and ge: "\<forall>a\<in>set xs. f x \<le> f a" by auto
  show ?case
  proof (cases "f x < N")
    case True
    with ih show ?thesis by simp
  next
    case False
    with ge have "\<forall>a\<in>set xs. \<not> f a < N" by auto
    then have "filter (\<lambda>x. f x < N) xs = []" by (simp add: filter_empty_conv)
    with ih False show ?thesis by (auto simp: less_Suc_eq)
  qed
qed

lemma concat_filter_upt:
  fixes f :: "'a \<Rightarrow> nat"
  assumes "sorted (map f xs)"
  shows "concat (map (\<lambda>k. filter (\<lambda>x. f x = k) xs) [0..<N]) = filter (\<lambda>x. f x < N) xs"
proof (induction N)
  case 0
  then show ?case by simp
next
  case (Suc N)
  then show ?case using filter_less_Suc [OF assms, of N] by simp
qed

lemma sorted_outer:
  assumes "sorted_wrt (before so) (map coord ts)"
  shows "sorted (map (\<lambda>t. outer_of so (coord t)) ts)"
proof -
  from assms have "sorted_wrt (\<lambda>a b. before so (coord a) (coord b)) ts"
    by (simp add: sorted_wrt_map)
  then have "sorted_wrt (\<lambda>a b. outer_of so (coord a) \<le> outer_of so (coord b)) ts"
    by (rule sorted_wrt_mono_rel [rotated]) (simp add: before_outer)
  then show ?thesis by (simp add: sorted_wrt_map)
qed

lemma sweep_sorted:
  assumes "sorted_wrt (before so) (map coord (stored M))"
    and "\<forall>t\<in>set (stored M). outer_of so (coord t) < outerSize so M"
  shows "sweep so M = stored M"
proof -
  have "sweep so M = filter (\<lambda>t. outer_of so (coord t) < outerSize so M) (stored M)"
    unfolding sweep_def InnerIterator_def
    by (rule concat_filter_upt [OF sorted_outer [OF assms(1)]])
  also have "\<dots> = stored M"
    using assms(2) by (simp add: filter_id_conv)
  finally show ?thesis .
qed

lemma wf_jacobian_sweep:
  assumes "wf_jacobian so nr nc M"
  shows "sweep so M = stored M"
proof (rule sweep_sorted)
  from assms show "sorted_wrt (before so) (map coord (stored M))"
    by (simp add: wf_jacobian_def)
  from assms show "\<forall>t\<in>set (stored M). outer_of so (coord t) < outerSize so M"
    by (cases so) (auto simp: wf_jacobian_def list_all_iff outer_of_def outerSize_def)
qed

lemma insert_triplet_coords:
  "set (map coord (insert_triplet so t es)) = insert (coord t) (set (map coord es))"
  by (induction es) (auto simp: coord_def)

lemma insert_triplet_sorted:
  assumes "sorted_wrt (before so) (map coord es)"
  shows "sorted_wrt (before so) (map coord (insert_triplet so t es))"
  using assms
proof (induction es)
  case Nil
  then show ?case by simp
next
  case (Cons e es)
  then have e_min: "\<forall>a\<in>set es. before so (coord e) (coord a)"
    and s: "sorted_wrt (before so) (map coord es)" by auto
  show ?case
  proof (cases "coord t = coord e")
    case True
    have "coord (fst e, fst (snd e), dbl_plus (coeff e) (coeff t)) = coord e"
      by (simp add: coord_def)
    with True Cons.prems show ?thesis by simp
  next
    case ne: False
    show ?thesis
    proof (cases "before so (coord t) (coord e)")
      case True
      with e_min have "\<forall>a\<in>set es. before so (coord t) (coord a)"
        using before_trans by blast
      with True ne Cons.prems show ?thesis by simp
    next
      case False
      with ne have et: "before so (coord e) (coord t)"
        using before_total [of "coord t" "coord e" so] by auto
      have "\<forall>a\<in>set (map coord (insert_triplet so t es)). before so (coord e) a"
        unfolding insert_triplet_coords using et e_min by auto
      with False ne Cons.IH [OF s] show ?thesis by simp
    qed
  qed
qed

lemma foldl_insert_triplet:
  assumes "sorted_wrt (before so) (map coord acc)"
  shows "sorted_wrt (before so) (map coord (foldl (\<lambda>acc t. insert_triplet so t acc) acc ts))
         \<and> set (map coord (foldl (\<lambda>acc t. insert_triplet so t acc) acc ts))
             = set (map coord acc) \<union> set (map coord ts)"
  using assms
proof (induction ts arbitrary: acc)
  case Nil
  then show ?case by simp
next
  case (Cons t ts)
  from Cons.IH [OF insert_triplet_sorted [OF Cons.prems, of t]]
  show ?case unfolding foldl_Cons insert_triplet_coords by auto
qed

lemma setFromTriplets_Inr:
  assumes "setFromTriplets so M ts = Inr M'"
  shows "rows M' = rows M" and "cols M' = cols M"
    and "sorted_wrt (before so) (map coord (stored M'))"
    and "set (map coord (stored M')) = set (map coord ts)"
    and "\<forall>t\<in>set ts. fst (coord t) < rows M \<and> snd (coord t) < cols M"
    and "sweep so M' = stored M'"
proof -
  from assms have M': "M' = M\<lparr>stored := foldl (\<lambda>acc t. insert_triplet so t acc) [] ts\<rparr>"
    and r: "list_all (\<lambda>t. fst (coord t) < rows M \<and> snd (coord t) < cols M) ts"
    by (auto simp: setFromTriplets_def split: if_splits)
  note f = foldl_insert_triplet [of so "[]" ts, simplified]
  show "rows M' = rows M" "cols M' = cols M" using M' by simp_all
  show s: "sorted_wrt (before so) (map coord (stored M'))" using M' f by simp
  show c: "set (map coord (stored M')) = set (map coord ts)" using M' f by simp
  show rr: "\<forall>t\<in>set ts. fst (coord t) < rows M \<and> snd (coord t) < cols M"
    using r by (simp add: list_all_iff)
  have "\<forall>t\<in>set (stored M'). outer_of so (coord t) < outerSize so M'"
  proof
    fix t assume "t \<in> set (stored M')"
    then have "coord t \<in> set (map coord ts)" using c by auto
    then obtain u where "u \<in> set ts" and "coord u = coord t" by auto
    with rr have "fst (coord t) < rows M \<and> snd (coord t) < cols M" by metis
    then show "outer_of so (coord t) < outerSize so M'"
      using M' by (cases so) (simp_all add: outer_of_def outerSize_def)
  qed
  from sweep_sorted [OF s this] show "sweep so M' = stored M'" .
qed


subsection \<open>The structural query\<close>

lemma structure_loop_acc:
  "structure_loop so p n cs (idx, constraintId, co, cjs, evs) =
     (case structure_loop so p n cs (idx, constraintId, [], [], []) of
        Inl e \<Rightarrow> Inl e
      | Inr (idx', constraintId', C, Js, E) \<Rightarrow>
          Inr (idx', constraintId', co @ C, cjs @ Js, evs @ E))"
proof (induction cs arbitrary: idx constraintId co cjs evs)
  case Nil
  then show ?case by simp
next
  case (Cons c cs)
  show ?case
  proof (cases "synthesize_point p n constraintId")
    case (Inl e)
    then show ?thesis by simp
  next
    case (Inr x)
    let ?os = "outputSize (g_of c)"
    let ?J = "jacobian (g_of c) x"
    let ?c1 = "map (global_triplet idx) (sweep so ?J)"
    let ?R = "structure_loop so p n cs (idx + ?os, Suc constraintId, [], [], [])"
    have l: "structure_loop so p n (c # cs) (idx, constraintId, co, cjs, evs)
               = structure_loop so p n cs
                   (idx + ?os, Suc constraintId, co @ ?c1, cjs @ [?J], evs @ [(constraintId, x)])"
      using Inr by (simp add: Let_def)
    have r: "structure_loop so p n (c # cs) (idx, constraintId, [], [], [])
               = structure_loop so p n cs
                   (idx + ?os, Suc constraintId, ?c1, [?J], [(constraintId, x)])"
      using Inr by (simp add: Let_def)
    show ?thesis
      unfolding l r
      by (subst Cons.IH, subst (2) Cons.IH) (simp split: sum.splits prod.splits)
  qed
qed

lemma structure_loop_Cons:
  "structure_loop so p n (c # cs) (idx, constraintId, [], [], []) =
     (case synthesize_point p n constraintId of
        Inl e \<Rightarrow> Inl e
      | Inr x \<Rightarrow>
          (case structure_loop so p n cs (idx + outputSize (g_of c), Suc constraintId, [], [], []) of
             Inl e \<Rightarrow> Inl e
           | Inr (idx', constraintId', C, Js, E) \<Rightarrow>
               Inr (idx', constraintId',
                    map (global_triplet idx) (sweep so (jacobian (g_of c) x)) @ C,
                    jacobian (g_of c) x # Js, (constraintId, x) # E)))"
proof (cases "synthesize_point p n constraintId")
  case (Inl e)
  then show ?thesis by simp
next
  case (Inr x)
  have "structure_loop so p n (c # cs) (idx, constraintId, [], [], [])
          = structure_loop so p n cs
              (idx + outputSize (g_of c), Suc constraintId,
               map (global_triplet idx) (sweep so (jacobian (g_of c) x)),
               [jacobian (g_of c) x], [(constraintId, x)])"
    using Inr by (simp add: Let_def)
  then show ?thesis
    using Inr by (subst (asm) structure_loop_acc) (simp split: sum.splits prod.splits)
qed

lemma structure_loop_Inr:
  assumes "structure_loop so p n cs (idx, constraintId, [], [], []) = Inr (idx', constraintId', C, Js, E)"
  shows "length Js = length cs"
    and "map fst E = [constraintId..<constraintId + length cs]"
    and "\<forall>e\<in>set E. synthesize_point p n (fst e) = Inr (snd e)"
    and "Js = map2 (\<lambda>c e. jacobian (g_of c) (snd e)) cs E"
    and "idx' = idx + sum_list (map (\<lambda>c. outputSize (g_of c)) cs)"
  using assms
proof (induction cs arbitrary: idx constraintId idx' constraintId' C Js E)
  case Nil
  {
    case 1 then show ?case by simp
  next
    case 2 then show ?case by simp
  next
    case 3 then show ?case by simp
  next
    case 4 then show ?case by simp
  next
    case 5 then show ?case by simp
  }
next
  case (Cons c cs)
  {
    fix idx constraintId idx' constraintId' C Js E
    assume a: "structure_loop so p n (c # cs) (idx, constraintId, [], [], [])
                 = Inr (idx', constraintId', C, Js, E)"
    then obtain x C0 Js0 E0 where x: "synthesize_point p n constraintId = Inr x"
      and r: "structure_loop so p n cs (idx + outputSize (g_of c), Suc constraintId, [], [], [])
                = Inr (idx', constraintId', C0, Js0, E0)"
      and Js: "Js = jacobian (g_of c) x # Js0" and E: "E = (constraintId, x) # E0"
      unfolding structure_loop_Cons by (auto split: sum.splits prod.splits)
    note ih = Cons.IH [OF r]
    have A: "[constraintId..<Suc (constraintId + length cs)]
               = constraintId # [Suc constraintId..<Suc (constraintId + length cs)]"
      by (rule upt_conv_Cons) simp
    have 1: "length Js = length (c # cs)" using ih(1) Js by simp
    have 2: "map fst E = [constraintId..<constraintId + length (c # cs)]"
      using ih(2) E A by simp
    have 3: "\<forall>e\<in>set E. synthesize_point p n (fst e) = Inr (snd e)"
      using ih(3) E x by simp
    have 4: "Js = map2 (\<lambda>c e. jacobian (g_of c) (snd e)) (c # cs) E"
      using ih(4) Js E by simp
    have 5: "idx' = idx + sum_list (map (\<lambda>c. outputSize (g_of c)) (c # cs))"
      using ih(5) by simp
    note 1 2 3 4 5
  } note step = this
  {
    case 1 from step(1) [OF this] show ?case .
  next
    case 2 from step(2) [OF this] show ?case .
  next
    case 3 from step(3) [OF this] show ?case .
  next
    case 4 from step(4) [OF this] show ?case .
  next
    case 5 from step(5) [OF this] show ?case .
  }
qed

lemma eval_jac_g_sparse_structure_iff:
  "eval_jac_g_sparse so p st n x new_x m nele_jac None = Inr (st1, out) \<longleftrightarrow>
     inputSize (objective p) = n \<and> constraintsOutputSize p = m
     \<and> (\<exists>idx constraintId C Js E J' iRow jCol.
          structure_loop so p n (constraints p) (0, 0, [], [], []) = Inr (idx, constraintId, C, Js, E)
          \<and> setFromTriplets so
               (case sparse_jacobian_' st of
                  None \<Rightarrow> \<lparr>rows = constraintsOutputSize p, cols = inputSize (objective p),
                            stored = []\<rparr>
                | Some J0 \<Rightarrow> J0) C = Inr J'
          \<and> emit (sweep so J') 0 (replicate nele_jac 0) (replicate nele_jac 0) = Inr (iRow, jCol)
          \<and> st1 = \<lparr>sparse_jacobian_' = Some J',
                    constraintJacobians_' = constraintJacobians_' st @ Js,
                    jacobianEvaluations = jacobianEvaluations st @ E\<rparr>
          \<and> out = SparseStructure iRow jCol)"
  unfolding eval_jac_g_sparse_def Let_def
  by (subst structure_loop_acc) (auto split: sum.splits prod.splits)

lemma setFromTriplets_again:
  assumes "setFromTriplets so M ts = Inr M'"
  shows "setFromTriplets so M' ts = Inr M'"
  using assms by (auto simp: setFromTriplets_def split: if_splits)

text \<open>
  Claim C2, as amended.  Whenever a structural query returns, the next structural query
  returns the same row and column arrays and leaves the merged matrix as it is; and each of
  the two queries, the second as well as the first, evaluates the Jacobian of every
  constraint once, at the synthesized point of that constraint.
\<close>

theorem structural_query_twice:
  assumes "eval_jac_g_sparse so p st n x new_x m nele_jac None = Inr (st1, out1)"
  shows "\<exists>st2 E. eval_jac_g_sparse so p st1 n x' new_x' m nele_jac None = Inr (st2, out1)
           \<and> sparse_jacobian_' st2 = sparse_jacobian_' st1
           \<and> map fst E = [0..<length (constraints p)]
           \<and> (\<forall>e\<in>set E. synthesize_point p n (fst e) = Inr (snd e))
           \<and> jacobianEvaluations st1 = jacobianEvaluations st @ E
           \<and> jacobianEvaluations st2 = jacobianEvaluations st1 @ E"
proof -
  from assms obtain idx constraintId C Js E J' iRow jCol where
    n: "inputSize (objective p) = n" and m: "constraintsOutputSize p = m"
    and l: "structure_loop so p n (constraints p) (0, 0, [], [], []) = Inr (idx, constraintId, C, Js, E)"
    and s: "setFromTriplets so
               (case sparse_jacobian_' st of
                  None \<Rightarrow> \<lparr>rows = constraintsOutputSize p, cols = inputSize (objective p),
                            stored = []\<rparr>
                | Some J0 \<Rightarrow> J0) C = Inr J'"
    and e: "emit (sweep so J') 0 (replicate nele_jac 0) (replicate nele_jac 0) = Inr (iRow, jCol)"
    and st1: "st1 = \<lparr>sparse_jacobian_' = Some J',
                    constraintJacobians_' = constraintJacobians_' st @ Js,
                    jacobianEvaluations = jacobianEvaluations st @ E\<rparr>"
    and out1: "out1 = SparseStructure iRow jCol"
    unfolding eval_jac_g_sparse_structure_iff by blast
  let ?st2 = "\<lparr>sparse_jacobian_' = Some J',
               constraintJacobians_' = constraintJacobians_' st1 @ Js,
               jacobianEvaluations = jacobianEvaluations st1 @ E\<rparr>"
  have s2: "setFromTriplets so (case sparse_jacobian_' st1 of
                  None \<Rightarrow> \<lparr>rows = constraintsOutputSize p, cols = inputSize (objective p),
                            stored = []\<rparr>
                | Some J0 \<Rightarrow> J0) C = Inr J'"
    using setFromTriplets_again [OF s] st1 by simp
  have "eval_jac_g_sparse so p st1 n x' new_x' m nele_jac None = Inr (?st2, out1)"
    unfolding eval_jac_g_sparse_structure_iff using n m l s2 e out1 by blast
  moreover have "sparse_jacobian_' ?st2 = sparse_jacobian_' st1" using st1 by simp
  moreover have "map fst E = [0..<length (constraints p)]"
    using structure_loop_Inr(2) [OF l] by simp
  moreover have "\<forall>e\<in>set E. synthesize_point p n (fst e) = Inr (snd e)"
    using structure_loop_Inr(3) [OF l] .
  moreover have "jacobianEvaluations st1 = jacobianEvaluations st @ E" using st1 by simp
  moreover have "jacobianEvaluations ?st2 = jacobianEvaluations st1 @ E" by simp
  ultimately show ?thesis by blast
qed

lemma one_linear_first:
  "eval_jac_g_sparse so one_linear_problem fresh_tnlp_sparse 1 [Fin 0] True 1 1 None
     = Inr (\<lparr>sparse_jacobian_' = Some \<lparr>rows = 1, cols = 1, stored = [(0, 0, Fin 3)]\<rparr>,
             constraintJacobians_' = [\<lparr>rows = 1, cols = 1, stored = [(0, 0, Fin 3)]\<rparr>],
             jacobianEvaluations = [(0, [Fin 0])]\<rparr>,
            SparseStructure [0] [0])"
  by (cases so)
     (simp_all add: eval_jac_g_sparse_def one_linear_problem_def sparse_problem_def
        linear_sparse_function_def fresh_tnlp_sparse_def constraintsOutputSize_def
        synthesize_point_def sweep_def InnerIterator_def outerSize_def outer_of_def
        setFromTriplets_def coord_def coeff_def global_triplet_def Let_def)

theorem structural_query_twice_witness:
  "eval_jac_g_sparse ColMajor one_linear_problem fresh_tnlp_sparse 1 [Fin 0] True 1 1 None
     = Inr (\<lparr>sparse_jacobian_' = Some \<lparr>rows = 1, cols = 1, stored = [(0, 0, Fin 3)]\<rparr>,
             constraintJacobians_' = [\<lparr>rows = 1, cols = 1, stored = [(0, 0, Fin 3)]\<rparr>],
             jacobianEvaluations = [(0, [Fin 0])]\<rparr>,
            SparseStructure [0] [0])
   \<and> (\<exists>st2. eval_jac_g_sparse ColMajor one_linear_problem
               \<lparr>sparse_jacobian_' = Some \<lparr>rows = 1, cols = 1, stored = [(0, 0, Fin 3)]\<rparr>,
                constraintJacobians_' = [\<lparr>rows = 1, cols = 1, stored = [(0, 0, Fin 3)]\<rparr>],
                jacobianEvaluations = [(0, [Fin 0])]\<rparr> 1 [Fin 0] True 1 1 None
              = Inr (st2, SparseStructure [0] [0])
            \<and> length (jacobianEvaluations st2) = 2)"
proof -
  note f = one_linear_first [of ColMajor]
  from structural_query_twice [OF f, of "[Fin 0]" True] obtain st2 E where
    a: "eval_jac_g_sparse ColMajor one_linear_problem
               \<lparr>sparse_jacobian_' = Some \<lparr>rows = 1, cols = 1, stored = [(0, 0, Fin 3)]\<rparr>,
                constraintJacobians_' = [\<lparr>rows = 1, cols = 1, stored = [(0, 0, Fin 3)]\<rparr>],
                jacobianEvaluations = [(0, [Fin 0])]\<rparr> 1 [Fin 0] True 1 1 None
              = Inr (st2, SparseStructure [0] [0])"
    and b: "map fst E = [0..<length (constraints one_linear_problem)]"
    and c: "jacobianEvaluations st2 = [(0, [Fin 0])] @ E"
    by auto
  from b have "length E = 1"
    by (simp add: one_linear_problem_def sparse_problem_def flip: length_map [of fst E])
  with c have "length (jacobianEvaluations st2) = 2" by simp
  with f a show ?thesis by blast
qed

text \<open>
  The second structural query on a problem with one constraint: the coordinate arrays are the
  same, but the Jacobian has been evaluated a second time and a second copy of it has been
  appended to the stored constraint Jacobians.
\<close>

theorem structural_query_second_call_counterexample:
  "eval_jac_g_sparse ColMajor one_linear_problem fresh_tnlp_sparse 1 [Fin 0] True 1 1 None
     = Inr (\<lparr>sparse_jacobian_' = Some \<lparr>rows = 1, cols = 1, stored = [(0, 0, Fin 3)]\<rparr>,
             constraintJacobians_' = [\<lparr>rows = 1, cols = 1, stored = [(0, 0, Fin 3)]\<rparr>],
             jacobianEvaluations = [(0, [Fin 0])]\<rparr>,
            SparseStructure [0] [0])
   \<and> eval_jac_g_sparse ColMajor one_linear_problem
        \<lparr>sparse_jacobian_' = Some \<lparr>rows = 1, cols = 1, stored = [(0, 0, Fin 3)]\<rparr>,
         constraintJacobians_' = [\<lparr>rows = 1, cols = 1, stored = [(0, 0, Fin 3)]\<rparr>],
         jacobianEvaluations = [(0, [Fin 0])]\<rparr> 1 [Fin 0] True 1 1 None
     = Inr (\<lparr>sparse_jacobian_' = Some \<lparr>rows = 1, cols = 1, stored = [(0, 0, Fin 3)]\<rparr>,
             constraintJacobians_' = [\<lparr>rows = 1, cols = 1, stored = [(0, 0, Fin 3)]\<rparr>,
                                      \<lparr>rows = 1, cols = 1, stored = [(0, 0, Fin 3)]\<rparr>],
             jacobianEvaluations = [(0, [Fin 0]), (0, [Fin 0])]\<rparr>,
            SparseStructure [0] [0])"
  by (simp add: eval_jac_g_sparse_def one_linear_problem_def sparse_problem_def
        linear_sparse_function_def fresh_tnlp_sparse_def constraintsOutputSize_def
        synthesize_point_def sweep_def InnerIterator_def outerSize_def outer_of_def
        setFromTriplets_def coord_def coeff_def global_triplet_def Let_def)


subsection \<open>Arrays, the numeric loop, first rows\<close>




lemma length_offsets [simp]: "length (offsets idx cs) = length cs"
  by (induction cs arbitrary: idx) simp_all



lemma offsets_ge: "a \<in> set (offsets idx cs) \<Longrightarrow> idx \<le> a"
proof (induction cs arbitrary: idx)
  case Nil
  then show ?case by simp
next
  case (Cons c cs)
  then show ?case by (auto dest!: Cons.IH)
qed


subsection \<open>The order of the copy\<close>

lemma copy_order_global_RowMajor:
  assumes "\<forall>z\<in>set zs. wf_jacobian RowMajor (rows (snd z)) n (snd z)"
  shows "copy_order_global RowMajor n zs
           = concat (map (\<lambda>z. map (global_triplet (fst z)) (stored (snd z))) zs)"
proof -
  have "copy_order_global RowMajor n zs
          = concat (map (\<lambda>z. map (global_triplet (fst z)) (sweep RowMajor (snd z))) zs)"
    by (simp add: copy_order_global_def sweep_def)
  also have "map (\<lambda>z. map (global_triplet (fst z)) (sweep RowMajor (snd z))) zs
               = map (\<lambda>z. map (global_triplet (fst z)) (stored (snd z))) zs"
  proof (rule map_cong [OF refl])
    fix z assume "z \<in> set zs"
    with assms have "wf_jacobian RowMajor (rows (snd z)) n (snd z)" by blast
    then show "map (global_triplet (fst z)) (sweep RowMajor (snd z))
                 = map (global_triplet (fst z)) (stored (snd z))"
      by (simp add: wf_jacobian_sweep)
  qed
  finally show ?thesis .
qed

lemma wf_jacobian_D:
  assumes "wf_jacobian so nr nc M"
  shows "rows M = nr" and "cols M = nc"
    and "\<forall>t\<in>set (stored M). fst (coord t) < nr \<and> snd (coord t) < nc"
    and "sorted_wrt (before so) (map coord (stored M))"
  using assms by (simp_all add: wf_jacobian_def list_all_iff)

lemma sorted_global:
  assumes "sorted_wrt (before so) (map coord ts)"
  shows "sorted_wrt (before so) (map coord (map (global_triplet idx) ts))"
proof -
  from assms have "sorted_wrt (\<lambda>a b. before so (coord a) (coord b)) ts"
    by (simp add: sorted_wrt_map)
  then have "sorted_wrt (\<lambda>a b. before so (coord (global_triplet idx a)) (coord (global_triplet idx b))) ts"
    by (rule sorted_wrt_mono_rel [rotated]) (simp add: before_global)
  then show ?thesis by (simp add: sorted_wrt_map)
qed

lemma copy_order_global_sorted_RowMajor:
  assumes wf: "\<forall>z\<in>set zs. wf_jacobian RowMajor (rows (snd z)) n (snd z)"
    and st: "sorted_wrt (\<lambda>z z'. fst z + rows (snd z) \<le> fst z') zs"
  shows "sorted_wrt (before RowMajor) (map coord (copy_order_global RowMajor n zs))"
proof -
  let ?f = "\<lambda>z. map coord (map (global_triplet (fst z)) (stored (snd z)))"
  have e: "map coord (copy_order_global RowMajor n zs) = concat (map ?f zs)"
    unfolding copy_order_global_RowMajor [OF wf] by (simp add: map_concat o_def)
  have each: "\<forall>z\<in>set zs. sorted_wrt (before RowMajor) (?f z)"
  proof
    fix z assume "z \<in> set zs"
    with wf have "sorted_wrt (before RowMajor) (map coord (stored (snd z)))"
      using wf_jacobian_D(4) by blast
    then show "sorted_wrt (before RowMajor) (?f z)" by (rule sorted_global)
  qed
  have "sorted_wrt (\<lambda>z z'. \<forall>a\<in>set (?f z). \<forall>b\<in>set (?f z'). before RowMajor a b) zs"
    using st
  proof (rule sorted_wrt_mono_rel [rotated])
    fix z z' assume z: "z \<in> set zs" and z': "z' \<in> set zs" and le: "fst z + rows (snd z) \<le> fst z'"
    show "\<forall>a\<in>set (?f z). \<forall>b\<in>set (?f z'). before RowMajor a b"
    proof (intro ballI)
      fix a b assume "a \<in> set (?f z)" and "b \<in> set (?f z')"
      then obtain t t' where t: "t \<in> set (stored (snd z))" and a: "a = (fst z + fst (coord t), snd (coord t))"
        and t': "t' \<in> set (stored (snd z'))" and b: "b = (fst z' + fst (coord t'), snd (coord t'))"
        by auto
      from wf z t have "fst (coord t) < rows (snd z)"
        using wf_jacobian_D(3) by blast
      with le a b show "before RowMajor a b"
        by (simp add: before_def outer_of_def)
    qed
  qed
  with each show ?thesis unfolding e sorted_wrt_concat_map by simp
qed

lemma copy_order_global_sorted_ColMajor:
  assumes wf: "\<forall>z\<in>set zs. wf_jacobian ColMajor (rows (snd z)) n (snd z)"
    and st: "sorted_wrt (\<lambda>z z'. fst z + rows (snd z) \<le> fst z') zs"
  shows "sorted_wrt (before ColMajor) (map coord (copy_order_global ColMajor n zs))"
proof -
  let ?H = "\<lambda>k z. map coord (map (global_triplet (fst z)) (InnerIterator ColMajor (snd z) k))"
  let ?F = "\<lambda>k. concat (map (?H k) zs)"
  have e: "map coord (copy_order_global ColMajor n zs) = concat (map ?F [0..<n])"
    by (simp add: copy_order_global_def map_concat o_def)
  have col: "snd a = k" if "a \<in> set (?F k)" for a k
    using that by (auto simp: InnerIterator_def outer_of_def)
  have inner: "sorted_wrt (before ColMajor) (?F k)" for k
    unfolding sorted_wrt_concat_map
  proof
    show "\<forall>z\<in>set zs. sorted_wrt (before ColMajor) (?H k z)"
    proof
      fix z assume "z \<in> set zs"
      with wf have "sorted_wrt (before ColMajor) (map coord (stored (snd z)))"
        using wf_jacobian_D(4) by blast
      then have "sorted_wrt (\<lambda>a b. before ColMajor (coord a) (coord b)) (stored (snd z))"
        by (simp add: sorted_wrt_map)
      then have "sorted_wrt (\<lambda>a b. before ColMajor (coord a) (coord b))
                   (InnerIterator ColMajor (snd z) k)"
        unfolding InnerIterator_def by (rule sorted_wrt_filter)
      then have "sorted_wrt (before ColMajor) (map coord (InnerIterator ColMajor (snd z) k))"
        by (simp add: sorted_wrt_map)
      then show "sorted_wrt (before ColMajor) (?H k z)" by (rule sorted_global)
    qed
    show "sorted_wrt (\<lambda>z z'. \<forall>a\<in>set (?H k z). \<forall>b\<in>set (?H k z'). before ColMajor a b) zs"
      using st
    proof (rule sorted_wrt_mono_rel [rotated])
      fix z z' assume z: "z \<in> set zs" and z': "z' \<in> set zs" and le: "fst z + rows (snd z) \<le> fst z'"
      show "\<forall>a\<in>set (?H k z). \<forall>b\<in>set (?H k z'). before ColMajor a b"
      proof (intro ballI)
        fix a b assume "a \<in> set (?H k z)" and "b \<in> set (?H k z')"
        then obtain t t' where t: "t \<in> set (stored (snd z))" and a: "a = (fst z + fst (coord t), k)"
          and t': "t' \<in> set (stored (snd z'))" and b: "b = (fst z' + fst (coord t'), k)"
          by (auto simp: InnerIterator_def outer_of_def)
        from wf z t have "fst (coord t) < rows (snd z)"
          using wf_jacobian_D(3) by blast
        with le a b show "before ColMajor a b"
          by (simp add: before_def outer_of_def inner_of_def)
      qed
    qed
  qed
  have "sorted_wrt (\<lambda>k k'. \<forall>a\<in>set (?F k). \<forall>b\<in>set (?F k'). before ColMajor a b) [0..<n]"
  proof (rule sorted_wrt_mono_rel [rotated, OF sorted_wrt_upt])
    fix k k' :: nat assume "k < k'"
    show "\<forall>a\<in>set (?F k). \<forall>b\<in>set (?F k'). before ColMajor a b"
    proof (intro ballI)
      fix a b assume "a \<in> set (?F k)" and "b \<in> set (?F k')"
      then have "snd a = k" and "snd b = k'" using col by blast+
      with \<open>k < k'\<close> show "before ColMajor a b"
        by (simp add: before_def outer_of_def)
    qed
  qed
  with inner show ?thesis unfolding e sorted_wrt_concat_map by simp
qed

lemma copy_order_global_sorted:
  assumes "\<forall>z\<in>set zs. wf_jacobian so (rows (snd z)) n (snd z)"
    and "sorted_wrt (\<lambda>z z'. fst z + rows (snd z) \<le> fst z') zs"
  shows "sorted_wrt (before so) (map coord (copy_order_global so n zs))"
  using assms copy_order_global_sorted_ColMajor copy_order_global_sorted_RowMajor
  by (cases so) blast+

lemma copy_order_global_set:
  assumes wf: "\<forall>z\<in>set zs. wf_jacobian so (rows (snd z)) n (snd z)"
  shows "set (copy_order_global so n zs)
           = (\<Union>z\<in>set zs. global_triplet (fst z) ` set (stored (snd z)))"
proof (cases so)
  case RowMajor
  with wf show ?thesis by (simp add: copy_order_global_RowMajor)
next
  case ColMajor
  have "set (copy_order_global ColMajor n zs)
          = (\<Union>k\<in>{0..<n}. \<Union>z\<in>set zs.
               global_triplet (fst z) ` {t \<in> set (stored (snd z)). snd (coord t) = k})"
    by (simp add: copy_order_global_def InnerIterator_def outer_of_def)
  also have "\<dots>
          = (\<Union>z\<in>set zs. global_triplet (fst z) ` {t \<in> set (stored (snd z)). snd (coord t) < n})"
  proof (intro equalityI subsetI)
    fix a
    assume "a \<in> (\<Union>k\<in>{0..<n}. \<Union>z\<in>set zs.
               global_triplet (fst z) ` {t \<in> set (stored (snd z)). snd (coord t) = k})"
    then obtain k z t where "k < n" "z \<in> set zs" "t \<in> set (stored (snd z))"
      "snd (coord t) = k" "a = global_triplet (fst z) t"
      by auto
    then show "a \<in> (\<Union>z\<in>set zs.
                 global_triplet (fst z) ` {t \<in> set (stored (snd z)). snd (coord t) < n})"
      by auto
  next
    fix a
    assume "a \<in> (\<Union>z\<in>set zs.
                 global_triplet (fst z) ` {t \<in> set (stored (snd z)). snd (coord t) < n})"
    then obtain z t where z: "z \<in> set zs" and t: "t \<in> set (stored (snd z))"
      and c: "snd (coord t) < n" and a: "a = global_triplet (fst z) t"
      by auto
    from t a have "a \<in> global_triplet (fst z) ` {u \<in> set (stored (snd z)). snd (coord u) = snd (coord t)}"
      by simp
    with z have "a \<in> (\<Union>z\<in>set zs.
               global_triplet (fst z) ` {u \<in> set (stored (snd z)). snd (coord u) = snd (coord t)})"
      by (rule UN_I)
    moreover from c have "snd (coord t) \<in> {0..<n}" by simp
    ultimately show "a \<in> (\<Union>k\<in>{0..<n}. \<Union>z\<in>set zs.
               global_triplet (fst z) ` {t \<in> set (stored (snd z)). snd (coord t) = k})"
      by (rule UN_I [rotated])
  qed
  also have "\<dots> = (\<Union>z\<in>set zs. global_triplet (fst z) ` set (stored (snd z)))"
  proof -
    have "{t \<in> set (stored (snd z)). snd (coord t) < n} = set (stored (snd z))"
      if "z \<in> set zs" for z
      using wf that wf_jacobian_D(3) [of ColMajor "rows (snd z)" n "snd z"] ColMajor by auto
    then show ?thesis by simp
  qed
  finally show ?thesis using ColMajor by simp
qed


lemma stacked_offsets:
  assumes "length Ms = length cs"
    and "\<forall>j<length cs. rows (Ms ! j) = outputSize (g_of (cs ! j))"
  shows "sorted_wrt (\<lambda>z z'. fst z + rows (snd z) \<le> fst z') (zip (offsets idx cs) Ms)"
  using assms
proof (induction cs arbitrary: idx Ms)
  case Nil
  then show ?case by simp
next
  case (Cons c cs)
  then obtain M Ms' where Ms: "Ms = M # Ms'" by (cases Ms) auto
  from Cons.prems Ms have l: "length Ms' = length cs" by simp
  from Cons.prems(2) Ms have r0: "rows M = outputSize (g_of c)" by auto
  from Cons.prems(2) Ms have r: "\<forall>j<length cs. rows (Ms' ! j) = outputSize (g_of (cs ! j))"
    by auto
  have "\<forall>z'\<in>set (zip (offsets (idx + outputSize (g_of c)) cs) Ms'). idx + rows M \<le> fst z'"
  proof
    fix z' assume "z' \<in> set (zip (offsets (idx + outputSize (g_of c)) cs) Ms')"
    then have "fst z' \<in> set (offsets (idx + outputSize (g_of c)) cs)"
      using set_zip_leftD [of "fst z'" "snd z'"] by simp
    from offsets_ge [OF this] r0 show "idx + rows M \<le> fst z'" by simp
  qed
  with Cons.IH [OF l r] Ms show ?case by simp
qed


subsection \<open>The frozen pattern and the numeric fill\<close>

lemma structure_loop_coefficients:
  assumes "structure_loop so p n cs (idx, constraintId, [], [], []) = Inr (idx', constraintId', C, Js, E)"
  shows "C = concat (map (\<lambda>z. map (global_triplet (fst z)) (sweep so (snd z)))
                       (zip (offsets idx cs) Js))"
  using assms
proof (induction cs arbitrary: idx constraintId idx' constraintId' C Js E)
  case Nil
  then show ?case by simp
next
  case (Cons c cs)
  from Cons.prems obtain x C0 Js0 E0 where
    r: "structure_loop so p n cs (idx + outputSize (g_of c), Suc constraintId, [], [], [])
          = Inr (idx', constraintId', C0, Js0, E0)"
    and C: "C = map (global_triplet idx) (sweep so (jacobian (g_of c) x)) @ C0"
    and Js: "Js = jacobian (g_of c) x # Js0"
    unfolding structure_loop_Cons by (auto split: sum.splits prod.splits)
  from Cons.IH [OF r] C Js show ?case by simp
qed

lemma zip_coords:
  assumes "length offs = length Ms"
  shows "(\<Union>z\<in>set (zip offs Ms). coord ` global_triplet (fst z) ` set (stored (snd z)))
           = (\<Union>j<length Ms. (\<lambda>c. (offs ! j + fst c, snd c)) ` set (map coord (stored (Ms ! j))))"
proof -
  have i: "coord ` global_triplet a ` set (stored M)
             = (\<lambda>c. (a + fst c, snd c)) ` set (map coord (stored M))" for a M
    by (simp add: image_image)
  have "(\<Union>z\<in>set (zip offs Ms). coord ` global_triplet (fst z) ` set (stored (snd z)))
          = (\<Union>z\<in>set (zip offs Ms). (\<lambda>c. (fst z + fst c, snd c)) ` set (map coord (stored (snd z))))"
    unfolding i ..
  also have "\<dots> = (\<Union>j<length Ms. (\<lambda>c. (offs ! j + fst c, snd c)) ` set (map coord (stored (Ms ! j))))"
  proof -
    have "set (zip offs Ms) = (\<lambda>j. (offs ! j, Ms ! j)) ` {..<length Ms}"
      using assms by (auto simp: set_zip)
    then show ?thesis by (simp add: image_image)
  qed
  finally show ?thesis .
qed

lemma frozen_order:
  assumes loop: "structure_loop so p n cs (0, 0, [], [], []) = Inr (idx, constraintId, C, Js, E)"
    and sft: "setFromTriplets so J0 C = Inr J'"
    and wfJ: "\<forall>j<length cs. wf_jacobian so (outputSize (g_of (cs ! j))) n (Js ! j)"
    and len: "length Ms = length cs"
    and wfM: "\<forall>j<length cs. wf_jacobian so (outputSize (g_of (cs ! j))) n (Ms ! j)"
    and same: "\<forall>j<length cs. map coord (stored (Ms ! j)) = map coord (stored (Js ! j))"
  shows "map coord (copy_order_global so n (zip (offsets 0 cs) Ms)) = map coord (stored J')"
proof (rule sorted_wrt_before_unique)
  let ?offs = "offsets 0 cs"
  have lenJ: "length Js = length cs" using structure_loop_Inr(1) [OF loop] .
  have wfz: "\<forall>z\<in>set (zip ?offs Xs). wf_jacobian so (rows (snd z)) n (snd z)"
    if l: "length Xs = length cs"
      and w: "\<forall>j<length cs. wf_jacobian so (outputSize (g_of (cs ! j))) n (Xs ! j)" for Xs
  proof
    fix z assume "z \<in> set (zip ?offs Xs)"
    then obtain j where j: "j < length cs" and z: "z = (?offs ! j, Xs ! j)"
      using l by (auto simp: set_zip)
    from w j have "wf_jacobian so (outputSize (g_of (cs ! j))) n (Xs ! j)" by blast
    moreover from this have "rows (Xs ! j) = outputSize (g_of (cs ! j))"
      by (rule wf_jacobian_D(1))
    ultimately show "wf_jacobian so (rows (snd z)) n (snd z)" using z by simp
  qed
  have rowsM: "\<forall>j<length cs. rows (Ms ! j) = outputSize (g_of (cs ! j))"
    using wfM wf_jacobian_D(1) by blast
  show "sorted_wrt (before so) (map coord (copy_order_global so n (zip ?offs Ms)))"
    by (rule copy_order_global_sorted [OF wfz [OF len wfM] stacked_offsets [OF len rowsM]])
  show "sorted_wrt (before so) (map coord (stored J'))"
    by (rule setFromTriplets_Inr(3) [OF sft])
  have C: "C = copy_order_global RowMajor n (zip ?offs Js)" if "so = RowMajor"
    using structure_loop_coefficients [OF loop] that
    by (simp add: copy_order_global_def sweep_def)
  have Cset: "set C = (\<Union>z\<in>set (zip ?offs Js). global_triplet (fst z) ` set (stored (snd z)))"
  proof -
    have "map (\<lambda>z. map (global_triplet (fst z)) (sweep so (snd z))) (zip ?offs Js)
            = map (\<lambda>z. map (global_triplet (fst z)) (stored (snd z))) (zip ?offs Js)"
    proof (rule map_cong [OF refl])
      fix z assume "z \<in> set (zip ?offs Js)"
      with wfz [OF lenJ wfJ] have "wf_jacobian so (rows (snd z)) n (snd z)" by blast
      then show "map (global_triplet (fst z)) (sweep so (snd z))
                   = map (global_triplet (fst z)) (stored (snd z))"
        by (simp add: wf_jacobian_sweep)
    qed
    then show ?thesis
      unfolding structure_loop_coefficients [OF loop] by simp
  qed
  have "set (map coord (copy_order_global so n (zip ?offs Ms)))
          = (\<Union>z\<in>set (zip ?offs Ms). coord ` global_triplet (fst z) ` set (stored (snd z)))"
    unfolding set_map copy_order_global_set [OF wfz [OF len wfM]] by blast
  also have "\<dots> = (\<Union>j<length Ms. (\<lambda>c. (?offs ! j + fst c, snd c)) ` set (map coord (stored (Ms ! j))))"
    by (rule zip_coords) (simp add: len)
  also have "\<dots> = (\<Union>j<length Js. (\<lambda>c. (?offs ! j + fst c, snd c)) ` set (map coord (stored (Js ! j))))"
    using same len lenJ by simp
  also have "\<dots> = (\<Union>z\<in>set (zip ?offs Js). coord ` global_triplet (fst z) ` set (stored (snd z)))"
    by (rule zip_coords [symmetric]) (simp add: lenJ)
  also have "\<dots> = set (map coord C)"
    unfolding set_map Cset by blast
  also have "\<dots> = set (map coord (stored J'))"
    using setFromTriplets_Inr(4) [OF sft] by simp
  finally show "set (map coord (copy_order_global so n (zip ?offs Ms))) = set (map coord (stored J'))" .
qed


lemma times_zero_structure [simp]:
  "rows (times_zero M) = rows M" "cols (times_zero M) = cols M"
  "map coord (stored (times_zero M)) = map coord (stored M)"
  by (simp_all add: times_zero_def coord_def o_def)




text \<open>The definitions that evaluate the sparse adapter on a concrete problem.\<close>

lemmas sparse_eval_defs =
  eval_jac_g_sparse_def sparse_problem_def
  linear_sparse_function_def vanishing_sparse_function_def vanishing_entries_def
  fresh_tnlp_sparse_def constraintsOutputSize_def
  synthesize_point_def synthesize_component_cases sweep_def InnerIterator_def outerSize_def
  outer_of_def setFromTriplets_def coord_def coeff_def global_triplet_def Let_def
  copy_order_def times_zero_def get_nlp_info_sparse_def nonZeros_def


lemma length_filter_less_Suc:
  fixes f :: "'a \<Rightarrow> nat"
  shows "length (filter (\<lambda>x. f x < Suc N) xs)
           = length (filter (\<lambda>x. f x < N) xs) + length (filter (\<lambda>x. f x = N) xs)"
  by (induction xs) (auto simp: less_Suc_eq)

lemma sum_length_filter_upt:
  fixes f :: "'a \<Rightarrow> nat"
  shows "sum_list (map (\<lambda>k. length (filter (\<lambda>x. f x = k) xs)) [0..<N])
           = length (filter (\<lambda>x. f x < N) xs)"
  by (induction N) (simp_all add: length_filter_less_Suc)

lemma copy_order_global_length:
  assumes wf: "\<forall>z\<in>set zs. wf_jacobian so (rows (snd z)) n (snd z)"
  shows "length (copy_order_global so n zs) = sum_list (map (\<lambda>z. nonZeros (snd z)) zs)"
proof (cases so)
  case RowMajor
  with wf show ?thesis
    by (simp add: copy_order_global_RowMajor length_concat o_def nonZeros_def)
next
  case ColMajor
  have "length (copy_order_global ColMajor n zs)
          = sum_list (map (\<lambda>k. sum_list
               (map (\<lambda>z. length (filter (\<lambda>t. snd (coord t) = k) (stored (snd z)))) zs)) [0..<n])"
    by (simp add: copy_order_global_def length_concat o_def InnerIterator_def outer_of_def)
  also have "\<dots> = sum_list (map (\<lambda>z. length (filter (\<lambda>t. snd (coord t) < n) (stored (snd z)))) zs)"
  proof (induction zs)
    case Nil
    then show ?case by simp
  next
    case (Cons z zs)
    then show ?case
      by (simp add: sum_list_addf sum_length_filter_upt)
  qed
  also have "\<dots> = sum_list (map (\<lambda>z. nonZeros (snd z)) zs)"
  proof (rule arg_cong [where f = sum_list], rule map_cong [OF refl])
    fix z assume "z \<in> set zs"
    with wf ColMajor have "wf_jacobian ColMajor (rows (snd z)) n (snd z)" by blast
    from wf_jacobian_D(3) [OF this]
    have "filter (\<lambda>t. snd (coord t) < n) (stored (snd z)) = stored (snd z)"
      by (simp add: filter_id_conv)
    then show "length (filter (\<lambda>t. snd (coord t) < n) (stored (snd z))) = nonZeros (snd z)"
      by (simp add: nonZeros_def)
  qed
  finally show ?thesis using ColMajor by simp
qed

lemma nnz_foldl:
  "foldl (\<lambda>nnz c. nnz + nonZeros (jacobian (g_of c) x)) a cs
     = a + sum_list (map (\<lambda>c. nonZeros (jacobian (g_of c) x)) cs)"
  by (induction cs arbitrary: a) simp_all


lemmas two_constraint_defs =
  two_constraint_problem_def row_sparse_function_def diagonal_sparse_function_def component_def
  before_def inner_of_def


lemma two_constraints_RowMajor:
  "eval_jac_g_sparse RowMajor two_constraint_problem fresh_tnlp_sparse 2 [] False 3 4 None
       = Inr (\<lparr>sparse_jacobian_' =
                 Some \<lparr>rows = 3, cols = 2,
                       stored = [(0, 0, Fin 1), (0, 1, Fin 2), (1, 0, Fin 5), (2, 1, Fin 6)]\<rparr>,
               constraintJacobians_' =
                 [\<lparr>rows = 1, cols = 2, stored = [(0, 0, Fin 1), (0, 1, Fin 2)]\<rparr>,
                  \<lparr>rows = 2, cols = 2, stored = [(0, 0, Fin 5), (1, 1, Fin 6)]\<rparr>],
               jacobianEvaluations = [(0, [Fin 5, Fin 6]), (1, [Fin 5, Fin 6])]\<rparr>,
              SparseStructure [0, 0, 1, 2] [0, 1, 0, 1])
   \<and> eval_jac_g_sparse RowMajor two_constraint_problem
        \<lparr>sparse_jacobian_' =
           Some \<lparr>rows = 3, cols = 2,
                 stored = [(0, 0, Fin 1), (0, 1, Fin 2), (1, 0, Fin 5), (2, 1, Fin 6)]\<rparr>,
         constraintJacobians_' =
           [\<lparr>rows = 1, cols = 2, stored = [(0, 0, Fin 1), (0, 1, Fin 2)]\<rparr>,
            \<lparr>rows = 2, cols = 2, stored = [(0, 0, Fin 5), (1, 1, Fin 6)]\<rparr>],
         jacobianEvaluations = [(0, [Fin 5, Fin 6]), (1, [Fin 5, Fin 6])]\<rparr>
        2 [Fin 7, Fin 8] True 3 4 (Some [Fin 0, Fin 0, Fin 0, Fin 0])
       = Inr (\<lparr>sparse_jacobian_' =
                 Some \<lparr>rows = 3, cols = 2,
                       stored = [(0, 0, Fin 1), (0, 1, Fin 2), (1, 0, Fin 5), (2, 1, Fin 6)]\<rparr>,
               constraintJacobians_' =
                 [\<lparr>rows = 1, cols = 2, stored = [(0, 0, Fin 1), (0, 1, Fin 2)]\<rparr>,
                  \<lparr>rows = 2, cols = 2, stored = [(0, 0, Fin 7), (1, 1, Fin 8)]\<rparr>],
               jacobianEvaluations = [(0, [Fin 5, Fin 6]), (1, [Fin 5, Fin 6])]\<rparr>,
              SparseValues [Fin 1, Fin 2, Fin 7, Fin 8])"
  by (simp add: sparse_eval_defs two_constraint_defs eval_nat_numeral)






subsection \<open>The number of non-zeros\<close>

text \<open>
  Claim C10, evaluated on a problem without starting point whose only constraint is bounded
  from below by 2 and stores its Jacobian coefficient only where it does not vanish.
  \<open>get_nlp_info\<close> evaluates the Jacobian at the zero vector and reports \<open>nnz_jac_g = 0\<close>; the
  structural query evaluates it at the synthesized point 2 and has one coordinate to emit:
  with the arrays of \<open>nele_jac = 0\<close> entries it writes outside them, and with room for one
  entry it emits the coordinate \<open>(0, 0)\<close>.
\<close>

theorem nnz_jac_g_vanishing:
  "startingPoint vanishing_lower_bounded_problem = None
   \<and> get_nlp_info_sparse vanishing_lower_bounded_problem = (1, 1, 0, 0)
   \<and> synthesize_point vanishing_lower_bounded_problem 1 0 = Inr [Fin 2]
   \<and> eval_jac_g_sparse ColMajor vanishing_lower_bounded_problem fresh_tnlp_sparse
        1 [] False 1 0 None = Inl BufferOverflow
   \<and> eval_jac_g_sparse ColMajor vanishing_lower_bounded_problem fresh_tnlp_sparse
        1 [] False 1 1 None
       = Inr (\<lparr>sparse_jacobian_' = Some \<lparr>rows = 1, cols = 1, stored = [(0, 0, Fin 2)]\<rparr>,
               constraintJacobians_' = [\<lparr>rows = 1, cols = 1, stored = [(0, 0, Fin 2)]\<rparr>],
               jacobianEvaluations = [(0, [Fin 2])]\<rparr>,
              SparseStructure [0] [0])"
  by (simp add: sparse_eval_defs vanishing_lower_bounded_problem_def)

text \<open>
  With a starting point both paths evaluate at the starting point, and the reported number
  is the number of coordinates of the frozen matrix, whenever the structural query returns
  and the constraint Jacobians are compressed matrices of the size of their constraint.
\<close>

proposition nnz_jac_g_with_starting_point:
  assumes wf: "\<forall>c\<in>set (constraints p). \<forall>x.
             wf_jacobian so (outputSize (g_of c)) (inputSize (objective p)) (jacobian (g_of c) x)"
    and sp: "startingPoint p = Some sp"
    and structural: "eval_jac_g_sparse so p st0 n x0 new_x0 m nele_jac None
                       = Inr (st1, SparseStructure iRow jCol)"
  shows "\<exists>J. sparse_jacobian_' st1 = Some J
           \<and> fst (snd (snd (get_nlp_info_sparse p))) = length (sweep so J)"
proof -
  let ?cs = "constraints p"
  let ?N = "length ?cs"
  from structural obtain idx constraintId C Js E J' where
    n: "inputSize (objective p) = n"
    and loop: "structure_loop so p n ?cs (0, 0, [], [], []) = Inr (idx, constraintId, C, Js, E)"
    and sft: "setFromTriplets so
               (case sparse_jacobian_' st0 of
                  None \<Rightarrow> \<lparr>rows = constraintsOutputSize p, cols = inputSize (objective p),
                            stored = []\<rparr>
                | Some J0 \<Rightarrow> J0) C = Inr J'"
    and st1: "st1 = \<lparr>sparse_jacobian_' = Some J',
                    constraintJacobians_' = constraintJacobians_' st0 @ Js,
                    jacobianEvaluations = jacobianEvaluations st0 @ E\<rparr>"
    unfolding eval_jac_g_sparse_structure_iff by blast
  have lenJ: "length Js = ?N" by (rule structure_loop_Inr(1) [OF loop])
  have lenE: "length E = ?N"
    using structure_loop_Inr(2) [OF loop] by (metis length_map length_upt add_diff_cancel_left')
  have Jj: "Js ! j = jacobian (g_of (?cs ! j)) sp" if j: "j < ?N" for j
  proof -
    from j lenE have "E ! j \<in> set E" by simp
    with structure_loop_Inr(3) [OF loop] have "synthesize_point p n (fst (E ! j)) = Inr (snd (E ! j))"
      by blast
    with sp have "snd (E ! j) = sp" by (simp add: synthesize_point_def)
    with j lenE structure_loop_Inr(4) [OF loop] show ?thesis by simp
  qed
  then have Js: "Js = map (\<lambda>c. jacobian (g_of c) sp) ?cs"
    using lenJ by (intro nth_equalityI) simp_all
  have wfJ: "\<forall>j<?N. wf_jacobian so (outputSize (g_of (?cs ! j))) n (Js ! j)"
    using wf n Jj by (metis nth_mem)
  let ?zs = "zip (offsets 0 ?cs) Js"
  have ord: "map coord (copy_order_global so n ?zs) = map coord (stored J')"
    by (rule frozen_order [OF loop sft wfJ lenJ wfJ]) simp
  have wfz: "\<forall>z\<in>set ?zs. wf_jacobian so (rows (snd z)) n (snd z)"
  proof
    fix z assume "z \<in> set ?zs"
    then obtain j where j: "j < ?N" and z: "z = (offsets 0 ?cs ! j, Js ! j)"
      using lenJ by (auto simp: set_zip)
    from wfJ j have w: "wf_jacobian so (outputSize (g_of (?cs ! j))) n (Js ! j)" by blast
    from wf_jacobian_D(1) [OF w] w z show "wf_jacobian so (rows (snd z)) n (snd z)" by simp
  qed
  have "length (stored J') = length (copy_order_global so n ?zs)"
    using ord by (metis length_map)
  also have "\<dots> = sum_list (map (\<lambda>z. nonZeros (snd z)) ?zs)"
    by (rule copy_order_global_length [OF wfz])
  also have "\<dots> = sum_list (map nonZeros Js)"
  proof -
    have "map (\<lambda>z. nonZeros (snd z)) ?zs = map nonZeros (map snd ?zs)" by (simp add: o_def)
    then show ?thesis using lenJ by simp
  qed
  also have "\<dots> = sum_list (map (\<lambda>c. nonZeros (jacobian (g_of c) sp)) ?cs)"
    unfolding Js by (simp add: o_def)
  also have "\<dots> = fst (snd (snd (get_nlp_info_sparse p)))"
    using sp by (simp add: get_nlp_info_sparse_def Let_def nnz_foldl)
  finally have "fst (snd (snd (get_nlp_info_sparse p))) = length (sweep so J')"
    using setFromTriplets_Inr(6) [OF sft] by simp
  with st1 show ?thesis by simp
qed


subsection \<open>The point at which the structural query evaluates\<close>

text \<open>
  Claim C4.  Two problems with one variable, one constraint and no starting point.  With the
  constraint between \<open>-infinity\<close> and \<open>+infinity\<close>, the branch commented
  \<open>otherwise use the non-infinite bound\<close> takes the lower bound, and the structural query
  evaluates the Jacobian of the constraint at the point \<open>-infinity\<close>.  With the constraint
  between \<open>-infinity\<close> and 5, the branch commented \<open>evaluate at middle\<close> is taken, and the
  query evaluates the Jacobian at \<open>+infinity\<close>.  Neither point is finite.
\<close>

theorem structural_query_point_not_finite:
  "get_nlp_info_sparse unbounded_problem = (1, 1, 1, 0)
   \<and> eval_jac_g_sparse ColMajor unbounded_problem fresh_tnlp_sparse 1 [] False 1 1 None
       = Inr (\<lparr>sparse_jacobian_' = Some \<lparr>rows = 1, cols = 1, stored = [(0, 0, Fin 3)]\<rparr>,
               constraintJacobians_' = [\<lparr>rows = 1, cols = 1, stored = [(0, 0, Fin 3)]\<rparr>],
               jacobianEvaluations = [(0, [MInf])]\<rparr>,
              SparseStructure [0] [0])
   \<and> \<not> list_all is_finite [MInf]
   \<and> get_nlp_info_sparse upper_bounded_problem = (1, 1, 1, 0)
   \<and> eval_jac_g_sparse ColMajor upper_bounded_problem fresh_tnlp_sparse 1 [] False 1 1 None
       = Inr (\<lparr>sparse_jacobian_' = Some \<lparr>rows = 1, cols = 1, stored = [(0, 0, Fin 3)]\<rparr>,
               constraintJacobians_' = [\<lparr>rows = 1, cols = 1, stored = [(0, 0, Fin 3)]\<rparr>],
               jacobianEvaluations = [(0, [PInf])]\<rparr>,
              SparseStructure [0] [0])
   \<and> \<not> list_all is_finite [PInf]"
  by (simp add: sparse_eval_defs unbounded_problem_def upper_bounded_problem_def is_finite_def)

end
